theory Spec2Isabelle
  imports Complex_Main "HOL-Library.AList" "HOL-Library.Sublist"
begin

section \<open>Strings\<close>

text \<open>
  The manager works on JavaScript strings: error messages of the version-control
  client, file names, configured values and the texts of files. A JavaScript string
  is kept here in its UTF-8 form, as a \<open>string\<close> of bytes: a character up to U+007F is
  one \<open>char\<close>, any other character is the sequence of two to four \<open>char\<close>s that
  encodes it. Everything the source searches for or splits on is ASCII, and a byte of
  ASCII never lies inside the encoding of another character, so a search in the UTF-8
  form finds what the source finds. The operations below are the members of
  \<open>String.prototype\<close> the source calls.
\<close>

fun startsWith :: "string \<Rightarrow> string \<Rightarrow> bool" where
  "startsWith s [] = True"
| "startsWith [] (p # ps) = False"
| "startsWith (c # cs) (p # ps) = (c = p \<and> startsWith cs ps)"

definition endsWith :: "string \<Rightarrow> string \<Rightarrow> bool" where
  "endsWith s ending = startsWith (rev s) (rev ending)"

text \<open>\<open>s.indexOf(p)\<close>: the first position where \<open>p\<close> occurs, \<open>None\<close> for JavaScript's -1.\<close>

fun indexOf :: "string \<Rightarrow> string \<Rightarrow> nat option" where
  "indexOf [] p = (if p = [] then Some 0 else None)"
| "indexOf (c # cs) p =
     (if startsWith (c # cs) p then Some 0 else map_option Suc (indexOf cs p))"

text \<open>\<open>s.includes(p)\<close>.\<close>

definition includes_str :: "string \<Rightarrow> string \<Rightarrow> bool" where
  "includes_str s p = (indexOf s p \<noteq> None)"

text \<open>\<open>s.split(sep)\<close> for a separator of one character.\<close>

fun splitOn :: "char \<Rightarrow> string \<Rightarrow> string list" where
  "splitOn sep [] = [[]]"
| "splitOn sep (c # cs) =
     (if c = sep then [] # splitOn sep cs
      else (case splitOn sep cs of w # ws \<Rightarrow> (c # w) # ws | [] \<Rightarrow> [[c]]))"

text \<open>\<open>xs.join(sep)\<close>.\<close>

fun joinWith :: "string \<Rightarrow> string list \<Rightarrow> string" where
  "joinWith sep [] = []"
| "joinWith sep [x] = x"
| "joinWith sep (x # y # ys) = x @ sep @ joinWith sep (y # ys)"

text \<open>
  \<open>s.trim()\<close> removes white space and line terminators from both ends. These are the
  characters U+0009 to U+000D, U+0020, U+00A0, U+1680, U+2000 to U+200A, U+2028,
  U+2029, U+202F, U+205F, U+3000 and U+FEFF, here each in its UTF-8 form.
\<close>

definition whiteSpaces :: "string list" where
  "whiteSpaces =
     [[CHR 0x09], [CHR 0x0A], [CHR 0x0B], [CHR 0x0C], [CHR 0x0D], [CHR 0x20],
      [CHR 0xC2, CHR 0xA0],
      [CHR 0xE1, CHR 0x9A, CHR 0x80],
      [CHR 0xE2, CHR 0x80, CHR 0x80], [CHR 0xE2, CHR 0x80, CHR 0x81],
      [CHR 0xE2, CHR 0x80, CHR 0x82], [CHR 0xE2, CHR 0x80, CHR 0x83],
      [CHR 0xE2, CHR 0x80, CHR 0x84], [CHR 0xE2, CHR 0x80, CHR 0x85],
      [CHR 0xE2, CHR 0x80, CHR 0x86], [CHR 0xE2, CHR 0x80, CHR 0x87],
      [CHR 0xE2, CHR 0x80, CHR 0x88], [CHR 0xE2, CHR 0x80, CHR 0x89],
      [CHR 0xE2, CHR 0x80, CHR 0x8A],
      [CHR 0xE2, CHR 0x80, CHR 0xA8], [CHR 0xE2, CHR 0x80, CHR 0xA9],
      [CHR 0xE2, CHR 0x80, CHR 0xAF],
      [CHR 0xE2, CHR 0x81, CHR 0x9F],
      [CHR 0xE3, CHR 0x80, CHR 0x80],
      [CHR 0xEF, CHR 0xBB, CHR 0xBF]]"

text \<open>
  \<open>stripLeading marks s\<close> removes from the start of \<open>s\<close> every occurrence of one of
  \<open>marks\<close>, as long as there is one. The end of a string is its start read backwards.
\<close>

function stripLeading :: "string list \<Rightarrow> string \<Rightarrow> string" where
  "stripLeading marks s =
     (case find (\<lambda>mark. mark \<noteq> [] \<and> startsWith s mark) marks of
        None \<Rightarrow> s
      | Some mark \<Rightarrow> stripLeading marks (drop (length mark) s))"
  by pat_completeness auto
termination
proof (relation "measure (\<lambda>(marks, s). length s)")
  show "wf (measure (\<lambda>(marks, s). length s))"
    by simp
next
  fix marks :: "string list" and s mark :: string
  assume "find (\<lambda>mark. mark \<noteq> [] \<and> startsWith s mark) marks = Some mark"
  then have "mark \<noteq> []" and "startsWith s mark"
    by (auto simp: find_Some_iff)
  then have "s \<noteq> []"
    by (cases mark) auto
  with \<open>mark \<noteq> []\<close> show "((marks, drop (length mark) s), (marks, s)) \<in> measure (\<lambda>(marks, s). length s)"
    by simp
qed

declare stripLeading.simps [simp del]

definition trim :: "string \<Rightarrow> string" where
  "trim s = rev (stripLeading (map rev whiteSpaces) (rev (stripLeading whiteSpaces s)))"

text \<open>
  The string that a buffer of bytes decodes to as UTF-8 (\<open>buffer.toString('utf8')\<close>, so
  also \<open>fs.readFileSync(p, 'utf8')\<close>), in its UTF-8 form: a well-formed sequence is kept
  as it is, the byte order mark too; every ill-formed part, taken as long as it can
  still start a well-formed sequence, becomes the one character U+FFFD. The lead bytes
  are \<open>C2\<close> to \<open>DF\<close> for two bytes, \<open>E0\<close> to \<open>EF\<close> for three and \<open>F0\<close> to \<open>F4\<close> for four; after
  \<open>E0\<close>, \<open>ED\<close>, \<open>F0\<close> and \<open>F4\<close> the second byte is restricted, so that no character is
  encoded longer than needed, none is a surrogate and none lies above U+10FFFF.
\<close>

definition continuation :: "char \<Rightarrow> bool" where
  "continuation c = (0x80 \<le> (of_char c :: nat) \<and> (of_char c :: nat) \<le> 0xBF)"

definition secondOfThree :: "char \<Rightarrow> char \<Rightarrow> bool" where
  "secondOfThree lead c =
     (if (of_char lead :: nat) = 0xE0 then 0xA0 \<le> (of_char c :: nat) \<and> (of_char c :: nat) \<le> 0xBF
      else if (of_char lead :: nat) = 0xED then 0x80 \<le> (of_char c :: nat) \<and> (of_char c :: nat) \<le> 0x9F
      else continuation c)"

definition secondOfFour :: "char \<Rightarrow> char \<Rightarrow> bool" where
  "secondOfFour lead c =
     (if (of_char lead :: nat) = 0xF0 then 0x90 \<le> (of_char c :: nat) \<and> (of_char c :: nat) \<le> 0xBF
      else if (of_char lead :: nat) = 0xF4 then 0x80 \<le> (of_char c :: nat) \<and> (of_char c :: nat) \<le> 0x8F
      else continuation c)"

definition replacementCharacter :: string where
  "replacementCharacter = [CHR 0xEF, CHR 0xBF, CHR 0xBD]"

fun utf8Text :: "string \<Rightarrow> string" where
  "utf8Text [] = []"
| "utf8Text (a # rest) =
     (if (of_char a :: nat) < 0x80 then a # utf8Text rest
      else if 0xC2 \<le> (of_char a :: nat) \<and> (of_char a :: nat) \<le> 0xDF then
        (case rest of
           [] \<Rightarrow> replacementCharacter
         | b # afterB \<Rightarrow>
             if continuation b then a # b # utf8Text afterB
             else replacementCharacter @ utf8Text rest)
      else if 0xE0 \<le> (of_char a :: nat) \<and> (of_char a :: nat) \<le> 0xEF then
        (case rest of
           [] \<Rightarrow> replacementCharacter
         | b # afterB \<Rightarrow>
             if secondOfThree a b then
               (case afterB of
                  [] \<Rightarrow> replacementCharacter
                | c # afterC \<Rightarrow>
                    if continuation c then a # b # c # utf8Text afterC
                    else replacementCharacter @ utf8Text afterB)
             else replacementCharacter @ utf8Text rest)
      else if 0xF0 \<le> (of_char a :: nat) \<and> (of_char a :: nat) \<le> 0xF4 then
        (case rest of
           [] \<Rightarrow> replacementCharacter
         | b # afterB \<Rightarrow>
             if secondOfFour a b then
               (case afterB of
                  [] \<Rightarrow> replacementCharacter
                | c # afterC \<Rightarrow>
                    if continuation c then
                      (case afterC of
                         [] \<Rightarrow> replacementCharacter
                       | d # afterD \<Rightarrow>
                           if continuation d then a # b # c # d # utf8Text afterD
                           else replacementCharacter @ utf8Text afterC)
                    else replacementCharacter @ utf8Text afterB)
             else replacementCharacter @ utf8Text rest)
      else replacementCharacter @ utf8Text rest)"

section \<open>The retrying executor\<close>

text \<open>
  \<open>RetryConfig\<close> of \<open>rulesManager.ts\<close>. \<open>maxAttempts\<close> is a count and the other three
  fields are numbers; the delay formula is read over the reals.
\<close>

record RetryConfig =
  maxAttempts :: nat
  baseDelay :: real
  maxDelay :: real
  backoffMultiplier :: real

text \<open>
  What \<open>withRetry\<close> throws: the error of the operation, kept by its string form
  \<open>String(error)\<close>, which is all the source inspects; or the unassigned \<open>lastError\<close>
  that the final \<open>throw lastError!\<close> raises when the loop body never ran.
\<close>

datatype thrown = Err string | UndefinedValue

text \<open>The effects of \<open>withRetry\<close> itself: a call of the operation, a \<open>setTimeout\<close> wait.\<close>

datatype retry_event = Invoke | Wait real

definition isRetryableError :: "string \<Rightarrow> bool" where
  "isRetryableError errorMessage =
     (includes_str errorMessage ''fetch first'' \<or>
      includes_str errorMessage ''rejected'' \<or>
      includes_str errorMessage ''timeout'' \<or>
      includes_str errorMessage ''network'' \<or>
      includes_str errorMessage ''connection'' \<or>
      includes_str errorMessage ''unable to access'' \<or>
      includes_str errorMessage ''Could not resolve host'' \<or>
      includes_str errorMessage ''Connection timed out'' \<or>
      includes_str errorMessage ''SSL certificate'' \<or>
      includes_str errorMessage ''authentication'' \<or>
      includes_str errorMessage ''permission denied'' \<or>
      includes_str errorMessage ''remote: Repository not found'' \<or>
      includes_str errorMessage ''remote: Invalid username or password'')"

definition backoffDelay :: "RetryConfig \<Rightarrow> nat \<Rightarrow> real" where
  "backoffDelay config attempt =
     min (baseDelay config * backoffMultiplier config ^ (attempt - 1)) (maxDelay config)"

text \<open>
  The \<open>for\<close> loop of \<open>withRetry\<close>, from the iteration \<open>attempt\<close> on. The operation
  is a fallible action on a state \<open>'s\<close>: it returns the string form of the error it
  throws, or its value. The result is what \<open>withRetry\<close> returns or throws, the state
  the operation left, and the effects in the order they happened.
\<close>

function retryLoop ::
  "('s \<Rightarrow> (string + 'a) \<times> 's) \<Rightarrow> RetryConfig \<Rightarrow> nat \<Rightarrow> thrown \<Rightarrow> 's
    \<Rightarrow> ((thrown + 'a) \<times> 's) \<times> retry_event list" where
  "retryLoop operation config attempt lastError s =
     (if attempt \<le> maxAttempts config then
        (case operation s of
           (Inr v, s') \<Rightarrow> ((Inr v, s'), [Invoke])
         | (Inl errorMessage, s') \<Rightarrow>
             if \<not> isRetryableError errorMessage \<or> attempt = maxAttempts config
             then ((Inl (Err errorMessage), s'), [Invoke])
             else (case retryLoop operation config (attempt + 1) (Err errorMessage) s' of
                     (r, effects) \<Rightarrow>
                       (r, Invoke # Wait (backoffDelay config attempt) # effects)))
      else ((Inl lastError, s), []))"
  by pat_completeness auto
termination
  by (relation "measure (\<lambda>(operation, config, attempt, lastError, s).
        Suc (maxAttempts config) - attempt)") auto

declare retryLoop.simps [simp del]

definition withRetry ::
  "('s \<Rightarrow> (string + 'a) \<times> 's) \<Rightarrow> RetryConfig \<Rightarrow> 's
    \<Rightarrow> ((thrown + 'a) \<times> 's) \<times> retry_event list" where
  "withRetry operation config s = retryLoop operation config 1 UndefinedValue s"

text \<open>An operation that fails with a retryable message whatever state it runs in.\<close>

definition alwaysTransient :: "('s \<Rightarrow> (string + 'a) \<times> 's) \<Rightarrow> bool" where
  "alwaysTransient operation = (\<forall>s. \<exists>e s'. operation s = (Inl e, s') \<and> isRetryableError e)"

section \<open>Paths and the file system\<close>

text \<open>
  A path is kept as the list of its components, an absolute path counted from the
  tree: \<open>path.join(a, b)\<close> is \<open>a @ b\<close> and \<open>path.dirname(p)\<close> is \<open>butlast p\<close>. Where
  the source looks into the text of a path, \<open>pathString\<close> gives the text of a
  relative path and \<open>absString\<close> that of an absolute one, with the separator \<open>/\<close>.
\<close>

type_synonym path = "string list"

definition pathString :: "path \<Rightarrow> string" where
  "pathString p = joinWith ''/'' p"

definition absString :: "path \<Rightarrow> string" where
  "absString p = concat (map (\<lambda>c. ''/'' @ c) p)"

text \<open>The components of a configured path such as \<open>.cursor/rules\<close>.\<close>

definition pathOf :: "string \<Rightarrow> path" where
  "pathOf s = filter (\<lambda>c. c \<noteq> [] \<and> c \<noteq> ''.'') (splitOn CHR ''/'' s)"

text \<open>\<open>path.relative(from, to)\<close> for two absolute paths.\<close>

fun pathRelative :: "path \<Rightarrow> path \<Rightarrow> path" where
  "pathRelative [] to = to"
| "pathRelative (a # as) [] = replicate (length (a # as)) ''..''"
| "pathRelative (a # as) (b # bs) =
     (if a = b then pathRelative as bs
      else replicate (length (a # as)) ''..'' @ (b # bs))"

text \<open>
  A file holds its content, a sequence of bytes; a directory holds its entries in the
  order \<open>readdirSync\<close> lists them. The file system is the listing of its root.
\<close>

datatype node = File string | Dir "(string \<times> node) list"

type_synonym directory = "(string \<times> node) list"

datatype fs_error = ENOENT | ENOTDIR | EISDIR | EEXIST

fun nodeAt :: "directory \<Rightarrow> path \<Rightarrow> node option" where
  "nodeAt tree [] = Some (Dir tree)"
| "nodeAt tree (n # ns) =
     (case map_of tree n of
        None \<Rightarrow> None
      | Some (File c) \<Rightarrow> (if ns = [] then Some (File c) else None)
      | Some (Dir sub) \<Rightarrow> nodeAt sub ns)"

definition existsSync :: "directory \<Rightarrow> path \<Rightarrow> bool" where
  "existsSync tree p = (nodeAt tree p \<noteq> None)"

definition readFileSync :: "directory \<Rightarrow> path \<Rightarrow> fs_error + string" where
  "readFileSync tree p =
     (case nodeAt tree p of
        Some (File c) \<Rightarrow> Inr c
      | Some (Dir items) \<Rightarrow> Inl EISDIR
      | None \<Rightarrow> Inl ENOENT)"

text \<open>\<open>fs.readFileSync(p, 'utf8')\<close>: the bytes of the file, decoded.\<close>

definition readTextSync :: "directory \<Rightarrow> path \<Rightarrow> fs_error + string" where
  "readTextSync tree p =
     (case readFileSync tree p of
        Inl e \<Rightarrow> Inl e
      | Inr bytes \<Rightarrow> Inr (utf8Text bytes))"

definition readdirSync :: "directory \<Rightarrow> path \<Rightarrow> fs_error + directory" where
  "readdirSync tree p =
     (case nodeAt tree p of
        Some (Dir items) \<Rightarrow> Inr items
      | Some (File c) \<Rightarrow> Inl ENOTDIR
      | None \<Rightarrow> Inl ENOENT)"

text \<open>\<open>fs.mkdirSync(p, { recursive: true })\<close>.\<close>

fun mkdirSync :: "path \<Rightarrow> directory \<Rightarrow> fs_error + directory" where
  "mkdirSync [] tree = Inr tree"
| "mkdirSync (n # ns) tree =
     (case map_of tree n of
        None \<Rightarrow>
          (case mkdirSync ns [] of
             Inl e \<Rightarrow> Inl e
           | Inr sub \<Rightarrow> Inr (AList.update n (Dir sub) tree))
      | Some (Dir sub) \<Rightarrow>
          (case mkdirSync ns sub of
             Inl e \<Rightarrow> Inl e
           | Inr sub' \<Rightarrow> Inr (AList.update n (Dir sub') tree))
      | Some (File c) \<Rightarrow> Inl (if ns = [] then EEXIST else ENOTDIR))"

text \<open>\<open>fs.writeFileSync(p, content)\<close>: the parent must be there; a file at \<open>p\<close> is replaced.\<close>

fun writeFileSync :: "path \<Rightarrow> string \<Rightarrow> directory \<Rightarrow> fs_error + directory" where
  "writeFileSync [] content tree = Inl EISDIR"
| "writeFileSync [n] content tree =
     (case map_of tree n of
        Some (Dir sub) \<Rightarrow> Inl EISDIR
      | _ \<Rightarrow> Inr (AList.update n (File content) tree))"
| "writeFileSync (n # ns) content tree =
     (case map_of tree n of
        Some (Dir sub) \<Rightarrow>
          (case writeFileSync ns content sub of
             Inl e \<Rightarrow> Inl e
           | Inr sub' \<Rightarrow> Inr (AList.update n (Dir sub') tree))
      | Some (File c) \<Rightarrow> Inl ENOTDIR
      | None \<Rightarrow> Inl ENOENT)"

definition copyFileSync :: "path \<Rightarrow> path \<Rightarrow> directory \<Rightarrow> fs_error + directory" where
  "copyFileSync source destination tree =
     (case readFileSync tree source of
        Inl e \<Rightarrow> Inl e
      | Inr content \<Rightarrow> writeFileSync destination content tree)"


section \<open>Configuration\<close>

record Config =
  rulesRepoUrl :: string
  globalRulesPath :: string
  excludePatterns :: "string list"

text \<open>
  The result of \<open>validateConfig\<close>. The messages of the source are Russian sentences;
  the theory, being ASCII, carries each in English.
\<close>

record ValidationResult =
  isValid :: bool
  error :: "string option"

definition validateConfig :: "Config \<Rightarrow> ValidationResult" where
  "validateConfig config =
     (if rulesRepoUrl config = [] \<or> trim (rulesRepoUrl config) = [] then
        \<lparr>isValid = False,
         error = Some (''The URL of the rules repository is not set. Please set Rules Repo Url ''
                       @ ''in the extension settings and restart the IDE.'')\<rparr>
      else if globalRulesPath config = [] \<or> trim (globalRulesPath config) = [] then
        \<lparr>isValid = False, error = Some ''The path to the global rules is not set.''\<rparr>
      else if excludePatterns config = [] then
        \<lparr>isValid = False, error = Some ''The list of excluded folders is not set.''\<rparr>
      else \<lparr>isValid = True, error = None\<rparr>)"

section \<open>The exclusion predicate of the ignore-file manager\<close>

definition shouldExclude :: "string \<Rightarrow> string list \<Rightarrow> bool" where
  "shouldExclude filePath patterns =
     (case indexOf filePath ''.cursor/rules'' of
        None \<Rightarrow> False
      | Some rulesIndex \<Rightarrow>
          (let relativePath = drop (rulesIndex + length ''.cursor/rules'' + 1) filePath;
               pathParts = splitOn CHR ''/'' relativePath
           in if length pathParts > 0 then
                (let rootFolder = hd pathParts
                 in if length pathParts = 1 \<and> includes_str rootFolder ''.''
                    then hd (splitOn CHR ''.'' rootFolder) \<in> set patterns
                    else rootFolder \<in> set patterns)
              else False))"

definition shouldExcludeFromRulesRepo :: "string \<Rightarrow> string list \<Rightarrow> bool" where
  "shouldExcludeFromRulesRepo filePath patterns = shouldExclude filePath patterns"

section \<open>Scanning the rule tree\<close>

record Rule =
  name :: string
  path :: path
  files :: "path list"
  isDirectory :: bool

record RulesStructure =
  localRules :: "Rule list"
  globalRules :: "Rule list"

text \<open>The loop of \<open>getFilesInDirectory\<close> over the entries of the directory \<open>dirPath\<close>.\<close>

fun filesIn :: "path \<Rightarrow> directory \<Rightarrow> path list" where
  "filesIn dirPath [] = []"
| "filesIn dirPath ((n, Dir sub) # items) = filesIn (dirPath @ [n]) sub @ filesIn dirPath items"
| "filesIn dirPath ((n, File c) # items) = (dirPath @ [n]) # filesIn dirPath items"

definition getFilesInDirectory :: "directory \<Rightarrow> path \<Rightarrow> fs_error + path list" where
  "getFilesInDirectory tree dirPath =
     (if \<not> existsSync tree dirPath then Inr []
      else (case readdirSync tree dirPath of
              Inl e \<Rightarrow> Inl e
            | Inr items \<Rightarrow> Inr (filesIn dirPath items)))"

text \<open>
  The loop of \<open>getRulesStructure\<close> over the entries of the rule root \<open>rulesDir\<close>
  (the variable \<open>globalRulesPath\<close> of the source).
\<close>

fun scanRules :: "string list \<Rightarrow> path \<Rightarrow> directory \<Rightarrow> RulesStructure \<Rightarrow> RulesStructure" where
  "scanRules patterns rulesDir [] found = found"
| "scanRules patterns rulesDir ((n, Dir sub) # items) found =
     (let rulePath = rulesDir @ [n];
          rule = \<lparr>name = n, path = rulePath, files = filesIn rulePath sub, isDirectory = True\<rparr>
      in scanRules patterns rulesDir items
           (if n \<in> set patterns
            then found\<lparr>localRules := localRules found @ [rule]\<rparr>
            else found\<lparr>globalRules := globalRules found @ [rule]\<rparr>))"
| "scanRules patterns rulesDir ((n, File c) # items) found =
     (let rulePath = rulesDir @ [n];
          rule = \<lparr>name = n, path = rulePath, files = [rulePath], isDirectory = False\<rparr>
      in scanRules patterns rulesDir items
           (if n \<in> set patterns
            then found\<lparr>localRules := localRules found @ [rule]\<rparr>
            else found\<lparr>globalRules := globalRules found @ [rule]\<rparr>))"

definition getRulesStructure :: "Config \<Rightarrow> directory \<Rightarrow> path \<Rightarrow> fs_error + RulesStructure" where
  "getRulesStructure config tree workspaceRoot =
     (let rulesDir = workspaceRoot @ pathOf (globalRulesPath config)
      in if existsSync tree rulesDir then
           (case readdirSync tree rulesDir of
              Inl e \<Rightarrow> Inl e
            | Inr items \<Rightarrow>
                Inr (scanRules (excludePatterns config) rulesDir items
                       \<lparr>localRules = [], globalRules = []\<rparr>))
         else Inr \<lparr>localRules = [], globalRules = []\<rparr>)"

definition getSyncableRules :: "Config \<Rightarrow> directory \<Rightarrow> path \<Rightarrow> fs_error + Rule list" where
  "getSyncableRules config tree workspaceRoot =
     (case getRulesStructure config tree workspaceRoot of
        Inl e \<Rightarrow> Inl e
      | Inr found \<Rightarrow> Inr (globalRules found))"

section \<open>Copying files\<close>

text \<open>
  The regular expression \<open>/^(---[\s\S]*?---)([\s\S]*)/\<close>: the text must start with
  the marker \<open>---\<close>; the first group runs to the end of the next marker, the first one
  found from the fourth character on, and the second group is all that follows.
  \<open>untilMarker\<close> finds that next marker.
\<close>

fun untilMarker :: "string \<Rightarrow> (string \<times> string) option" where
  "untilMarker [] = None"
| "untilMarker (c # cs) =
     (if startsWith (c # cs) ''---'' then Some (''---'', drop 3 (c # cs))
      else map_option (\<lambda>(before, rest). (c # before, rest)) (untilMarker cs))"

definition matchFrontmatter :: "string \<Rightarrow> (string \<times> string) option" where
  "matchFrontmatter content =
     (if startsWith content ''---''
      then map_option (\<lambda>(before, rest). (''---'' @ before, rest)) (untilMarker (drop 3 content))
      else None)"

text \<open>
  What an operation of the manager throws. Each \<open>new Error\<close> of the source is a
  constructor; a failure of the version-control client is kept by the string form of
  its error, a failure of Node's \<open>fs\<close> by its code.
\<close>

datatype failure =
    InvalidConfig string
  | ClientError thrown
  | FileSystemError fs_error
  | SourceMissing path
  | SyncConflict
  | PushRejected string

text \<open>
  An action on a state that may throw; \<open>andThen\<close> runs the next action on the state
  the first one left, unless the first one threw (\<open>await\<close> and the statement that
  follows it).
\<close>

definition andThen ::
  "('w \<Rightarrow> (failure + 'a) \<times> 'w) \<Rightarrow> ('a \<Rightarrow> 'w \<Rightarrow> (failure + 'b) \<times> 'w)
    \<Rightarrow> 'w \<Rightarrow> (failure + 'b) \<times> 'w" where
  "andThen first rest w =
     (case first w of
        (Inl e, w1) \<Rightarrow> (Inl e, w1)
      | (Inr v, w1) \<Rightarrow> rest v w1)"

definition succeed :: "'a \<Rightarrow> 'w \<Rightarrow> (failure + 'a) \<times> 'w" where
  "succeed v w = (Inr v, w)"

text \<open>A call of \<open>fs\<close> that changes the tree, and one that only reads it.\<close>

definition changing ::
  "(directory \<Rightarrow> fs_error + directory) \<Rightarrow> directory \<Rightarrow> (failure + unit) \<times> directory" where
  "changing change tree =
     (case change tree of
        Inl e \<Rightarrow> (Inl (FileSystemError e), tree)
      | Inr tree1 \<Rightarrow> (Inr (), tree1))"

definition reading ::
  "(directory \<Rightarrow> fs_error + 'a) \<Rightarrow> directory \<Rightarrow> (failure + 'a) \<times> directory" where
  "reading look tree =
     (case look tree of
        Inl e \<Rightarrow> (Inl (FileSystemError e), tree)
      | Inr v \<Rightarrow> (Inr v, tree))"

text \<open>\<open>if (!fs.existsSync(dir)) { fs.mkdirSync(dir, { recursive: true }); }\<close>\<close>

definition ensureDir :: "path \<Rightarrow> directory \<Rightarrow> (failure + unit) \<times> directory" where
  "ensureDir dirPath tree =
     (if \<not> existsSync tree dirPath then changing (mkdirSync dirPath) tree else (Inr (), tree))"

definition copyFile :: "path \<Rightarrow> path \<Rightarrow> directory \<Rightarrow> (failure + unit) \<times> directory" where
  "copyFile source destination =
     andThen (ensureDir (butlast destination))
       (\<lambda>_. changing (copyFileSync source destination))"

definition isGlobalRule :: "Config \<Rightarrow> path \<Rightarrow> bool" where
  "isGlobalRule config destination =
     (\<not> list_ex (\<lambda>pattern. includes_str (absString destination) (''/'' @ pattern @ ''/'')
                      \<or> includes_str (absString destination) (''/'' @ pattern @ ''.''))
          (excludePatterns config))"

definition isMarkdown :: "path \<Rightarrow> bool" where
  "isMarkdown source =
     (endsWith (absString source) ''.md'' \<or> endsWith (absString source) ''.mdc'')"

definition copyFileForSync ::
  "Config \<Rightarrow> path \<Rightarrow> path \<Rightarrow> directory \<Rightarrow> (failure + unit) \<times> directory" where
  "copyFileForSync config source destination =
     andThen (ensureDir (butlast destination))
       (\<lambda>_ tree.
          if isGlobalRule config destination \<and> isMarkdown source \<and> existsSync tree destination
          then
            andThen (reading (\<lambda>t. readTextSync t source))
              (\<lambda>srcContent. andThen (reading (\<lambda>t. readTextSync t destination))
                 (\<lambda>destContent.
                    case (matchFrontmatter srcContent, matchFrontmatter destContent) of
                      (Some (srcFrontmatter, srcBody), Some (destFrontmatter, destBody)) \<Rightarrow>
                        changing (writeFileSync destination (destFrontmatter @ srcBody))
                    | _ \<Rightarrow> changing (copyFileSync source destination)))
              tree
          else changing (copyFileSync source destination) tree)"

text \<open>
  The loop of \<open>copyDirectory\<close> over the entries of \<open>source\<close>. The entries of a
  subdirectory are those its parent's listing holds: the copy never writes under its
  source.
\<close>

fun copyEntries :: "path \<Rightarrow> path \<Rightarrow> directory \<Rightarrow> directory \<Rightarrow> (failure + unit) \<times> directory" where
  "copyEntries source destination [] tree = (Inr (), tree)"
| "copyEntries source destination ((n, Dir sub) # items) tree =
     andThen (ensureDir (destination @ [n]))
       (\<lambda>_. andThen (copyEntries (source @ [n]) (destination @ [n]) sub)
          (\<lambda>_. copyEntries source destination items))
       tree"
| "copyEntries source destination ((n, File c) # items) tree =
     andThen (copyFile (source @ [n]) (destination @ [n]))
       (\<lambda>_. copyEntries source destination items)
       tree"

definition copyDirectory :: "path \<Rightarrow> path \<Rightarrow> directory \<Rightarrow> (failure + unit) \<times> directory" where
  "copyDirectory source destination tree =
     (if \<not> existsSync tree source then (Inl (SourceMissing source), tree)
      else andThen (ensureDir destination)
             (\<lambda>_. andThen (reading (\<lambda>t. readdirSync t source))
                (\<lambda>items. copyEntries source destination items))
             tree)"

section \<open>The surroundings of the manager\<close>

datatype git_call = Clone | Cwd | Status | Add | Commit | Pull | Push

text \<open>
  What the manager is given from outside. \<open>tempDir\<close> is the fresh directory
  \<open>getTempDir\<close> names. \<open>sha256\<close> is the digest of \<open>crypto\<close>. \<open>gitignoreText\<close> is the text
  \<open>ensureGitignore\<close> computes from the present text of \<open>.gitignore\<close> and the patterns.
  \<open>answer c k\<close> is how the version-control client answers the call \<open>c\<close> made for the
  \<open>k\<close>-th time, counted from 0: the string form of the error it throws, or \<open>None\<close>
  when it succeeds. \<open>repository\<close> is the working tree a successful clone leaves at
  \<open>tempDir\<close>, and \<open>changedFiles\<close> the number of files the status after \<open>git add\<close>
  lists. What a pull merges into the working tree is outside the model.
\<close>

record host =
  tempDir :: path
  sha256 :: "string \<Rightarrow> string"
  gitignoreText :: "string \<Rightarrow> string list \<Rightarrow> string"
  answer :: "git_call \<Rightarrow> nat \<Rightarrow> string option"
  repository :: directory
  changedFiles :: nat

text \<open>The state an operation runs in: the file system and the calls made to the client.\<close>

record world =
  disk :: directory
  calls :: "git_call list"

text \<open>A clone puts the repository at its destination, creating the directories above it.\<close>

fun plant :: "path \<Rightarrow> directory \<Rightarrow> directory \<Rightarrow> directory" where
  "plant [] content tree = content"
| "plant (n # ns) content tree =
     AList.update n
       (Dir (plant ns content (case map_of tree n of Some (Dir sub) \<Rightarrow> sub | _ \<Rightarrow> [])))
       tree"

definition git :: "host \<Rightarrow> git_call \<Rightarrow> world \<Rightarrow> (string + unit) \<times> world" where
  "git h c w =
     (let w1 = w\<lparr>calls := calls w @ [c]\<rparr>
      in case answer h c (count_list (calls w) c) of
           Some errorMessage \<Rightarrow> (Inl errorMessage, w1)
         | None \<Rightarrow>
             (Inr (),
              if c = Clone then w1\<lparr>disk := plant (tempDir h) (repository h) (disk w1)\<rparr>
              else w1))"

text \<open>A call of the client that is awaited as it is, and one wrapped in \<open>withRetry\<close>.\<close>

definition gitStep :: "host \<Rightarrow> git_call \<Rightarrow> world \<Rightarrow> (failure + unit) \<times> world" where
  "gitStep h c w =
     (case git h c w of
        (Inl errorMessage, w1) \<Rightarrow> (Inl (ClientError (Err errorMessage)), w1)
      | (Inr v, w1) \<Rightarrow> (Inr v, w1))"

definition gitRetrying ::
  "RetryConfig \<Rightarrow> host \<Rightarrow> git_call \<Rightarrow> world \<Rightarrow> (failure + unit) \<times> world" where
  "gitRetrying retry h c w =
     (case fst (withRetry (git h c) retry w) of
        (Inl t, w1) \<Rightarrow> (Inl (ClientError t), w1)
      | (Inr v, w1) \<Rightarrow> (Inr v, w1))"

definition onDisk ::
  "(directory \<Rightarrow> (failure + 'a) \<times> directory) \<Rightarrow> world \<Rightarrow> (failure + 'a) \<times> world" where
  "onDisk action w = (case action (disk w) of (r, tree) \<Rightarrow> (r, w\<lparr>disk := tree\<rparr>))"

section \<open>The ignore file\<close>

definition ensureGitignore ::
  "host \<Rightarrow> path \<Rightarrow> string list \<Rightarrow> directory \<Rightarrow> (failure + unit) \<times> directory" where
  "ensureGitignore h workspaceRoot patterns =
     (let gitignorePath = workspaceRoot @ [''.gitignore'']
      in andThen
           (\<lambda>tree. if existsSync tree gitignorePath
                    then reading (\<lambda>t. readTextSync t gitignorePath) tree
                    else (Inr [], tree))
           (\<lambda>content. changing (writeFileSync gitignorePath (gitignoreText h content patterns))))"

section \<open>Fingerprints and the change set\<close>

text \<open>
  \<open>Record<string, string>\<close>, a plain object: the relative paths of the files of a rule
  tree with their digests. A key is kept as the list of the components of the relative
  path; no name holds a separator, so the list stands for the joined string, and a
  key of one component for the bare name. The entries are kept in the order the keys
  were first stored.
\<close>

type_synonym fingerprints = "(path \<times> string) list"

text \<open>
  The members a plain object inherits from \<open>Object.prototype\<close>. The operator \<open>in\<close> finds
  them in every such object, whatever it holds of its own.
\<close>

definition inheritedNames :: "string list" where
  "inheritedNames =
     [''constructor'', ''__defineGetter__'', ''__defineSetter__'', ''hasOwnProperty'',
      ''__lookupGetter__'', ''__lookupSetter__'', ''isPrototypeOf'', ''propertyIsEnumerable'',
      ''toString'', ''valueOf'', ''__proto__'', ''toLocaleString'']"

definition inherited :: "path \<Rightarrow> bool" where
  "inherited file = (file \<in> set (map (\<lambda>memberName. [memberName]) inheritedNames))"

text \<open>\<open>file in record\<close>.\<close>

definition hasKey :: "fingerprints \<Rightarrow> path \<Rightarrow> bool" where
  "hasKey record file = (map_of record file \<noteq> None \<or> inherited file)"

text \<open>
  \<open>record[file] = digest\<close>. Under a key that is there the digest is replaced. An
  assignment to \<open>__proto__\<close> goes to the setter \<open>Object.prototype\<close> has for it, which
  drops a value that is no object: nothing is stored.
\<close>

definition storeKey :: "path \<Rightarrow> string \<Rightarrow> fingerprints \<Rightarrow> fingerprints" where
  "storeKey file digest record =
     (if file = [''__proto__''] then record else AList.update file digest record)"

text \<open>
  \<open>for (const file in record)\<close> visits the keys the object holds of its own: first
  those that are array indices (the decimal numeral, with no leading zero, of a number
  below \<open>2^32 - 1\<close>) in ascending order, then the others in the order they were stored.
  The numerals are compared digit by digit.
\<close>

definition digitValue :: "char \<Rightarrow> nat" where
  "digitValue c = length (takeWhile (\<lambda>d. d \<noteq> c) ''0123456789'')"

fun digitsLess :: "string \<Rightarrow> string \<Rightarrow> bool" where
  "digitsLess (a # as) (b # bs) =
     (digitValue a < digitValue b \<or> (digitValue a = digitValue b \<and> digitsLess as bs))"
| "digitsLess as bs = False"

text \<open>Of two numerals with no leading zero the shorter is the smaller.\<close>

definition numeralLess :: "string \<Rightarrow> string \<Rightarrow> bool" where
  "numeralLess as bs =
     (length as < length bs \<or> (length as = length bs \<and> digitsLess as bs))"

definition arrayIndex :: "path \<Rightarrow> string option" where
  "arrayIndex file =
     (case file of
        [digits] \<Rightarrow>
          if digits \<noteq> [] \<and> list_all (\<lambda>c. c \<in> set ''0123456789'') digits
             \<and> (digits = ''0'' \<or> hd digits \<noteq> CHR ''0'')
             \<and> numeralLess digits ''4294967295''
          then Some digits else None
      | _ \<Rightarrow> None)"

fun insertIndex :: "path \<times> string \<Rightarrow> fingerprints \<Rightarrow> fingerprints" where
  "insertIndex entry [] = [entry]"
| "insertIndex entry (other # others) =
     (if numeralLess (concat (fst entry)) (concat (fst other)) then entry # other # others
      else other # insertIndex entry others)"

definition ownEntries :: "fingerprints \<Rightarrow> fingerprints" where
  "ownEntries record =
     foldr insertIndex (filter (\<lambda>(file, digest). arrayIndex file \<noteq> None) record) []
     @ filter (\<lambda>(file, digest). arrayIndex file = None) record"

definition getFileHash :: "host \<Rightarrow> directory \<Rightarrow> path \<Rightarrow> fs_error + string" where
  "getFileHash h tree filePath =
     (if \<not> existsSync tree filePath then Inr []
      else (case readFileSync tree filePath of
              Inl e \<Rightarrow> Inl e
            | Inr content \<Rightarrow> Inr (sha256 h content)))"

text \<open>
  The function \<open>walk\<close> inside \<open>getAllFilesWithHash\<close>, over the entries of the directory
  at \<open>basePath @ rel\<close>. A file the listing holds is there, so its digest is that of
  its content.
\<close>

fun walk ::
  "Config \<Rightarrow> host \<Rightarrow> path \<Rightarrow> path \<Rightarrow> path \<Rightarrow> directory \<Rightarrow> fingerprints \<Rightarrow> fingerprints" where
  "walk config h workspaceRoot basePath rel [] result = result"
| "walk config h workspaceRoot basePath rel ((n, Dir sub) # items) result =
     (let relPath = rel @ [n]
      in if relPath \<noteq> [] \<and> n \<in> set (excludePatterns config)
         then walk config h workspaceRoot basePath rel items result
         else walk config h workspaceRoot basePath rel items
                (walk config h workspaceRoot basePath relPath sub result))"
| "walk config h workspaceRoot basePath rel ((n, File content) # items) result =
     (let relPath = rel @ [n];
          fullPath = basePath @ relPath;
          relativeToWorkspace = pathString (pathRelative workspaceRoot fullPath)
      in if \<not> shouldExcludeFromRulesRepo relativeToWorkspace (excludePatterns config)
         then walk config h workspaceRoot basePath rel items
                (storeKey relPath (sha256 h content) result)
         else walk config h workspaceRoot basePath rel items result)"

definition getAllFilesWithHash ::
  "Config \<Rightarrow> host \<Rightarrow> path \<Rightarrow> path \<Rightarrow> directory \<Rightarrow> fs_error + fingerprints" where
  "getAllFilesWithHash config h workspaceRoot basePath tree =
     (if \<not> existsSync tree basePath then Inr []
      else (case readdirSync tree basePath of
              Inl e \<Rightarrow> Inl e
            | Inr items \<Rightarrow> Inr (walk config h workspaceRoot basePath [] items [])))"

text \<open>The variables \<open>toCopy\<close>, \<open>toDelete\<close>, \<open>added\<close>, \<open>modified\<close> and \<open>deleted\<close> of a run.\<close>

record ChangeSet =
  toCopy :: "path list"
  toDelete :: "path list"
  added :: nat
  modified :: nat
  deleted :: nat

record SyncStats =
  added :: nat
  modified :: nat
  deleted :: nat
  total :: nat

text \<open>
  \<open>for (const file in localFiles)\<close>, over the entries of \<open>localFiles\<close>. Where \<open>repoFiles\<close>
  has no key \<open>file\<close> of its own and inherits a member of that name, \<open>file in repoFiles\<close>
  holds and \<open>repoFiles[file]\<close> is that member, which no digest is equal to.
\<close>

fun compareLocal :: "fingerprints \<Rightarrow> fingerprints \<Rightarrow> ChangeSet \<Rightarrow> ChangeSet" where
  "compareLocal [] repoFiles changes = changes"
| "compareLocal ((file, digest) # entries) repoFiles changes =
     compareLocal entries repoFiles
       (if \<not> hasKey repoFiles file
        then changes\<lparr>ChangeSet.added := ChangeSet.added changes + 1,
                     toCopy := toCopy changes @ [file]\<rparr>
        else if map_of repoFiles file \<noteq> Some digest
        then changes\<lparr>ChangeSet.modified := ChangeSet.modified changes + 1,
                     toCopy := toCopy changes @ [file]\<rparr>
        else changes)"

text \<open>\<open>for (const file in repoFiles)\<close>, over the keys of \<open>repoFiles\<close>.\<close>

fun compareRepo :: "path list \<Rightarrow> fingerprints \<Rightarrow> ChangeSet \<Rightarrow> ChangeSet" where
  "compareRepo [] localFiles changes = changes"
| "compareRepo (file # keys) localFiles changes =
     compareRepo keys localFiles
       (if \<not> hasKey localFiles file
        then changes\<lparr>ChangeSet.deleted := ChangeSet.deleted changes + 1,
                     toDelete := toDelete changes @ [file]\<rparr>
        else changes)"

definition computeChanges :: "fingerprints \<Rightarrow> fingerprints \<Rightarrow> ChangeSet" where
  "computeChanges localFiles repoFiles =
     compareRepo (map fst (ownEntries repoFiles)) localFiles
       (compareLocal (ownEntries localFiles) repoFiles
          \<lparr>toCopy = [], toDelete = [], ChangeSet.added = 0, ChangeSet.modified = 0,
           ChangeSet.deleted = 0\<rparr>)"

definition statsOf :: "ChangeSet \<Rightarrow> SyncStats" where
  "statsOf changes =
     \<lparr>added = ChangeSet.added changes,
      modified = ChangeSet.modified changes,
      deleted = ChangeSet.deleted changes,
      total = ChangeSet.added changes + ChangeSet.modified changes + ChangeSet.deleted changes\<rparr>"

text \<open>\<open>for (const file of toCopy)\<close>: the copy phase.\<close>

fun copyChanged ::
  "Config \<Rightarrow> path \<Rightarrow> path \<Rightarrow> path list \<Rightarrow> directory \<Rightarrow> (failure + unit) \<times> directory" where
  "copyChanged config localRulesPath repoRulesPath [] tree = (Inr (), tree)"
| "copyChanged config localRulesPath repoRulesPath (file # rest) tree =
     (let src = localRulesPath @ file;
          dst = repoRulesPath @ file
      in andThen (ensureDir (butlast dst))
           (\<lambda>_. andThen (copyFileForSync config src dst)
              (\<lambda>_. copyChanged config localRulesPath repoRulesPath rest))
           tree)"

section \<open>The three operations\<close>

record RulesManager =
  config :: Config
  retryConfig :: RetryConfig

text \<open>
  The error each operation's outer \<open>catch\<close> throws: the operation's own prefix before
  the string form of what was caught.
\<close>

datatype operation_error = SyncFailed failure | PullFailed failure | PushFailed failure

definition localRulesPath :: "RulesManager \<Rightarrow> path \<Rightarrow> path" where
  "localRulesPath m workspaceRoot = workspaceRoot @ pathOf (globalRulesPath (config m))"

definition repoRulesPath :: "RulesManager \<Rightarrow> host \<Rightarrow> path" where
  "repoRulesPath m h = tempDir h @ pathOf (globalRulesPath (config m))"

text \<open>The check every operation starts with.\<close>

definition checkConfig :: "RulesManager \<Rightarrow> world \<Rightarrow> (failure + unit) \<times> world" where
  "checkConfig m w =
     (let configValidation = validateConfig (config m)
      in if \<not> isValid configValidation
         then (Inl (InvalidConfig
                      (case error configValidation of
                         None \<Rightarrow> ''Invalid configuration''
                       | Some text \<Rightarrow> if text = [] then ''Invalid configuration'' else text)),
               w)
         else (Inr (), w))"

text \<open>
  The opening of \<open>syncRules\<close> and of \<open>pushRules\<close>, the same in both: the check of the
  configuration, the ignore file, the list of syncable rules (which is only logged),
  the clone under \<open>withRetry\<close>, and the rule directory of the clone.
\<close>

definition openClone :: "RulesManager \<Rightarrow> host \<Rightarrow> path \<Rightarrow> world \<Rightarrow> (failure + unit) \<times> world" where
  "openClone m h workspaceRoot =
     andThen (checkConfig m)
       (\<lambda>_. andThen (onDisk (ensureGitignore h workspaceRoot (excludePatterns (config m))))
       (\<lambda>_. andThen (onDisk (reading (\<lambda>t. getSyncableRules (config m) t workspaceRoot)))
       (\<lambda>syncableRules. andThen (gitRetrying (retryConfig m) h Clone)
       (\<lambda>_. onDisk (ensureDir (repoRulesPath m h))))))"

text \<open>
  The middle of both: the two fingerprint maps, the comparison, and the copy phase.
  Nothing in it, and nothing after it, uses \<open>toDelete\<close>.
\<close>

definition compareAndCopy ::
  "RulesManager \<Rightarrow> host \<Rightarrow> path \<Rightarrow> world \<Rightarrow> (failure + ChangeSet) \<times> world" where
  "compareAndCopy m h workspaceRoot =
     andThen (onDisk (reading (getAllFilesWithHash (config m) h workspaceRoot
                                 (localRulesPath m workspaceRoot))))
       (\<lambda>localFiles.
          andThen (onDisk (reading (getAllFilesWithHash (config m) h workspaceRoot
                                      (repoRulesPath m h))))
            (\<lambda>repoFiles.
               (let changes = computeChanges localFiles repoFiles
                in andThen (onDisk (copyChanged (config m) (localRulesPath m workspaceRoot)
                                      (repoRulesPath m h) (toCopy changes)))
                     (\<lambda>_. succeed changes))))"

text \<open>
  The end of \<open>syncRules\<close>: a failed pull is logged and forgotten, a failed push is
  turned into one of two errors.
\<close>

definition pushFailure :: "string \<Rightarrow> failure" where
  "pushFailure errorMessage =
     (if includes_str errorMessage ''fetch first'' \<or> includes_str errorMessage ''rejected''
      then SyncConflict
      else PushRejected errorMessage)"

definition publishSync :: "host \<Rightarrow> world \<Rightarrow> (failure + unit) \<times> world" where
  "publishSync h =
     andThen (gitStep h Cwd)
       (\<lambda>_. andThen (gitStep h Status)
       (\<lambda>_. andThen (gitStep h Add)
       (\<lambda>_. andThen (gitStep h Status)
       (\<lambda>_. if changedFiles h > 0
             then andThen (gitStep h Commit)
                    (\<lambda>_. andThen (\<lambda>w. (Inr (), snd (git h Pull w)))
                    (\<lambda>_ w. case git h Push w of
                              (Inl errorMessage, w1) \<Rightarrow> (Inl (pushFailure errorMessage), w1)
                            | (Inr v, w1) \<Rightarrow> (Inr (), w1)))
             else succeed ()))))"

definition syncRules ::
  "RulesManager \<Rightarrow> host \<Rightarrow> path \<Rightarrow> world \<Rightarrow> (operation_error + SyncStats) \<times> world" where
  "syncRules m h workspaceRoot w =
     (case andThen (openClone m h workspaceRoot)
             (\<lambda>_. andThen (compareAndCopy m h workspaceRoot)
             (\<lambda>changes. andThen (publishSync h)
             (\<lambda>_. succeed (statsOf changes)))) w of
        (Inl e, w1) \<Rightarrow> (Inl (SyncFailed e), w1)
      | (Inr stats, w1) \<Rightarrow> (Inr stats, w1))"

text \<open>The end of \<open>pushRules\<close>: the pull and the push run under \<open>withRetry\<close>.\<close>

definition publishPush :: "RulesManager \<Rightarrow> host \<Rightarrow> world \<Rightarrow> (failure + unit) \<times> world" where
  "publishPush m h =
     andThen (gitStep h Cwd)
       (\<lambda>_. andThen (gitStep h Status)
       (\<lambda>_. andThen (gitStep h Add)
       (\<lambda>_. andThen (gitStep h Status)
       (\<lambda>_. if changedFiles h > 0
             then andThen (gitStep h Commit)
                    (\<lambda>_. andThen (\<lambda>w. (Inr (), snd (gitRetrying (retryConfig m) h Pull w)))
                    (\<lambda>_. gitRetrying (retryConfig m) h Push))
             else succeed ()))))"

definition pushRules ::
  "RulesManager \<Rightarrow> host \<Rightarrow> path \<Rightarrow> world \<Rightarrow> (operation_error + SyncStats) \<times> world" where
  "pushRules m h workspaceRoot w =
     (case andThen (openClone m h workspaceRoot)
             (\<lambda>_. andThen (compareAndCopy m h workspaceRoot)
             (\<lambda>changes. andThen (publishPush m h)
             (\<lambda>_. succeed (statsOf changes)))) w of
        (Inl e, w1) \<Rightarrow> (Inl (PushFailed e), w1)
      | (Inr stats, w1) \<Rightarrow> (Inr stats, w1))"

text \<open>The loop of \<open>pullRules\<close> over the entries of the clone's rule directory.\<close>

fun pullEntries ::
  "string list \<Rightarrow> path \<Rightarrow> path \<Rightarrow> directory \<Rightarrow> nat \<Rightarrow> directory \<Rightarrow> (failure + nat) \<times> directory" where
  "pullEntries patterns repoRules rulesDir [] copied tree = (Inr copied, tree)"
| "pullEntries patterns repoRules rulesDir ((n, item) # items) copied tree =
     (if n \<in> set patterns then pullEntries patterns repoRules rulesDir items copied tree
      else andThen
             (case item of
                Dir sub \<Rightarrow> copyDirectory (repoRules @ [n]) (rulesDir @ [n])
              | File content \<Rightarrow> copyFile (repoRules @ [n]) (rulesDir @ [n]))
             (\<lambda>_. pullEntries patterns repoRules rulesDir items (copied + 1))
             tree)"

definition pullRules ::
  "RulesManager \<Rightarrow> host \<Rightarrow> path \<Rightarrow> world \<Rightarrow> (operation_error + SyncStats) \<times> world" where
  "pullRules m h workspaceRoot w =
     (case andThen (checkConfig m)
             (\<lambda>_. andThen (onDisk (ensureGitignore h workspaceRoot (excludePatterns (config m))))
             (\<lambda>_. andThen (gitRetrying (retryConfig m) h Clone)
             (\<lambda>_. andThen
                     (onDisk (\<lambda>tree.
                        if existsSync tree (repoRulesPath m h)
                        then andThen (ensureDir (localRulesPath m workspaceRoot))
                               (\<lambda>_. andThen (reading (\<lambda>t. readdirSync t (repoRulesPath m h)))
                               (\<lambda>items. pullEntries (excludePatterns (config m))
                                           (repoRulesPath m h) (localRulesPath m workspaceRoot)
                                           items 0))
                               tree
                        else (Inr 0, tree)))
             (\<lambda>copied. succeed \<lparr>added = copied, modified = 0, deleted = 0,
                                 total = copied + 0 + 0\<rparr>)))) w of
        (Inl e, w1) \<Rightarrow> (Inl (PullFailed e), w1)
      | (Inr stats, w1) \<Rightarrow> (Inr stats, w1))"

section \<open>Notions the properties are stated with\<close>

text \<open>The content of the file at a path, \<open>None\<close> where there is no file.\<close>

definition fileAt :: "directory \<Rightarrow> path \<Rightarrow> string option" where
  "fileAt tree p = (case nodeAt tree p of Some (File content) \<Rightarrow> Some content | _ \<Rightarrow> None)"


section \<open>Concrete inputs\<close>

text \<open>The retry configuration of the backoff example; it is also the extension's default.\<close>

definition exampleRetry :: RetryConfig where
  "exampleRetry = \<lparr>maxAttempts = 3, baseDelay = 1000, maxDelay = 10000, backoffMultiplier = 2\<rparr>"

text \<open>An operation that always times out; its state counts the calls made.\<close>

definition timingOut :: "nat \<Rightarrow> (string + unit) \<times> nat" where
  "timingOut n = (Inl ''Connection timed out'', Suc n)"

text \<open>
  A workspace at \<open>/home/project\<close> with the default configuration of the extension and
  a repository address.
\<close>

definition projectRoot :: path where
  "projectRoot = [''home'', ''project'']"

definition projectConfig :: Config where
  "projectConfig = \<lparr>rulesRepoUrl = ''https://example.org/rules.git'',
       globalRulesPath = ''.cursor/rules'', excludePatterns = [''my-project'']\<rparr>"

definition projectManager :: RulesManager where
  "projectManager = \<lparr>config = projectConfig, retryConfig = exampleRetry\<rparr>"

text \<open>
  The same manager with a repository address of white space only: a space, a no-break
  space (U+00A0), an em space (U+2003), a byte order mark (U+FEFF) and a tab.
\<close>

definition blankManager :: RulesManager where
  "blankManager =
     \<lparr>config = projectConfig\<lparr>rulesRepoUrl :=
          [CHR 0x20, CHR 0xC2, CHR 0xA0, CHR 0xE2, CHR 0x80, CHR 0x83, CHR 0xEF, CHR 0xBB, CHR 0xBF,
           CHR 0x09]\<rparr>,
      retryConfig = exampleRetry\<rparr>"

text \<open>
  A host whose client cannot reach the server for the pull and has its push rejected.
  Its digest is the content itself, a digest without collisions.
\<close>

definition rejectingHost :: host where
  "rejectingHost = \<lparr>tempDir = [''tmp'', ''clone''], sha256 = (\<lambda>content. content),
     gitignoreText = (\<lambda>old patterns. old),
     answer = (\<lambda>c k. if c = Pull then Some ''Could not resolve host: example.org''
                      else if c = Push then Some ''! [rejected] main -> main (fetch first)''
                      else None),
     repository = [(''.cursor'', Dir [(''rules'', Dir [(''b.md'', File ''bbb'')])])],
     changedFiles = 1\<rparr>"

definition projectWorld :: world where
  "projectWorld = \<lparr>disk = [(''home'', Dir [(''project'', Dir [(''.cursor'', Dir [(''rules'',
        Dir [(''a.md'', File ''aaa'')])])])])], calls = []\<rparr>"



text \<open>
  A workspace whose rule directory holds the one file \<open>my-project.md\<close>, \<open>my-project\<close>
  being the configured exclusion pattern.
\<close>

definition stemTree :: directory where
  "stemTree = [(''home'', Dir [(''project'', Dir [(''.cursor'', Dir [(''rules'',
        Dir [(''my-project.md'', File ''local notes'')])])])])]"


text \<open>
  A host whose repository holds a directory of two rules, a rule file and an excluded
  directory, and whose client always succeeds.
\<close>

definition pullHost :: host where
  "pullHost = \<lparr>tempDir = [''tmp'', ''clone''], sha256 = (\<lambda>content. content),
     gitignoreText = (\<lambda>old patterns. old),
     answer = (\<lambda>c k. None),
     repository = [(''.cursor'', Dir [(''rules'',
        Dir [(''core'', Dir [(''naming.md'', File ''names''), (''errors.md'', File ''errors'')]),
             (''style.md'', File ''style''),
             (''my-project'', Dir [(''template.md'', File ''template'')])])])],
     changedFiles = 0\<rparr>"

text \<open>
  A host whose repository holds rule files named \<open>constructor\<close> and \<open>toString\<close> next
  to \<open>legacy.md\<close>, and whose client always succeeds.
\<close>

definition inheritingHost :: host where
  "inheritingHost = \<lparr>tempDir = [''tmp'', ''clone''], sha256 = (\<lambda>content. content),
     gitignoreText = (\<lambda>old patterns. old),
     answer = (\<lambda>c k. None),
     repository = [(''.cursor'', Dir [(''rules'',
        Dir [(''constructor'', File ''built''), (''toString'', File ''shown''),
             (''legacy.md'', File ''old rule'')])])],
     changedFiles = 1\<rparr>"


section \<open>Properties of the retrying executor\<close>

lemma retryLoop_invocations_le:
  "count_list (snd (retryLoop operation retry attempt lastError s)) Invoke
     \<le> Suc (maxAttempts retry) - attempt"
proof (induction operation retry attempt lastError s rule: retryLoop.induct)
  case (1 operation retry attempt lastError s)
  show ?case
    using 1 by (subst retryLoop.simps) (auto split: prod.splits sum.splits)
qed

lemma retryLoop_propagates:
  assumes "attempt \<le> maxAttempts retry"
    and "operation s = (Inl errorMessage, s')"
    and "\<not> isRetryableError errorMessage \<or> attempt = maxAttempts retry"
  shows "retryLoop operation retry attempt lastError s = ((Inl (Err errorMessage), s'), [Invoke])"
  using assms by (subst retryLoop.simps) auto

lemma retryLoop_retries:
  assumes "attempt < maxAttempts retry"
    and "operation s = (Inl errorMessage, s')"
    and "isRetryableError errorMessage"
  shows "retryLoop operation retry attempt lastError s =
     (fst (retryLoop operation retry (attempt + 1) (Err errorMessage) s'),
      Invoke # Wait (backoffDelay retry attempt)
        # snd (retryLoop operation retry (attempt + 1) (Err errorMessage) s'))"
  using assms by (subst retryLoop.simps) (auto split: prod.splits)

lemma retryLoop_constant_failure:
  "operation = (\<lambda>s. (Inl m, s)) \<Longrightarrow> isRetryableError m \<Longrightarrow> attempt \<le> maxAttempts retry \<Longrightarrow>
     retryLoop operation retry attempt lastError s =
       ((Inl (Err m), s),
        concat (map (\<lambda>k. [Invoke, Wait (backoffDelay retry k)]) [attempt..<maxAttempts retry])
          @ [Invoke])"
proof (induction operation retry attempt lastError s rule: retryLoop.induct)
  case (1 operation retry attempt lastError s)
  have op: "operation s = (Inl m, s)"
    using "1.prems"(1) by simp
  show ?case
  proof (cases "attempt = maxAttempts retry")
    case True
    with op "1.prems" show ?thesis
      by (simp add: retryLoop_propagates)
  next
    case False
    with "1.prems" have lt: "attempt < maxAttempts retry" by simp
    have step: "retryLoop operation retry (attempt + 1) (Err m) s =
       ((Inl (Err m), s),
        concat (map (\<lambda>k. [Invoke, Wait (backoffDelay retry k)]) [attempt + 1..<maxAttempts retry])
          @ [Invoke])"
      using "1.IH"[OF _ op[symmetric] refl] "1.prems" lt False
      by simp
    show ?thesis
      using lt op step "1.prems"(2) by (simp add: retryLoop_retries upt_conv_Cons)
  qed
qed

lemma withRetry_example:
  assumes "alwaysTransient operation"
  shows "snd (withRetry operation exampleRetry s) = [Invoke, Wait 1000, Invoke, Wait 2000, Invoke]"
    and "\<exists>e s'. fst (withRetry operation exampleRetry s) = (Inl (Err e), s')
            \<and> operation (snd (operation (snd (operation s)))) = (Inl e, s')"
proof -
  from assms obtain e1 s1 where o1: "operation s = (Inl e1, s1)" "isRetryableError e1"
    unfolding alwaysTransient_def by blast
  from assms obtain e2 s2 where o2: "operation s1 = (Inl e2, s2)" "isRetryableError e2"
    unfolding alwaysTransient_def by blast
  from assms obtain e3 s3 where o3: "operation s2 = (Inl e3, s3)" "isRetryableError e3"
    unfolding alwaysTransient_def by blast
  have r3: "retryLoop operation exampleRetry 3 (Err e2) s2 = ((Inl (Err e3), s3), [Invoke])"
    using o3 by (simp add: retryLoop_propagates exampleRetry_def)
  have r2: "retryLoop operation exampleRetry 2 (Err e1) s1 =
      ((Inl (Err e3), s3), [Invoke, Wait 2000, Invoke])"
    using o2 r3 retryLoop_retries[of 2 exampleRetry operation s1 e2 s2 "Err e1"]
    by (simp add: exampleRetry_def backoffDelay_def)
  have r1: "retryLoop operation exampleRetry 1 UndefinedValue s =
      ((Inl (Err e3), s3), [Invoke, Wait 1000, Invoke, Wait 2000, Invoke])"
    using o1 r2 retryLoop_retries[of 1 exampleRetry operation s e1 s1 UndefinedValue]
    by (simp add: exampleRetry_def backoffDelay_def eval_nat_numeral)
  show "snd (withRetry operation exampleRetry s) = [Invoke, Wait 1000, Invoke, Wait 2000, Invoke]"
    using r1 by (simp add: withRetry_def)
  show "\<exists>e s'. fst (withRetry operation exampleRetry s) = (Inl (Err e), s')
            \<and> operation (snd (operation (snd (operation s)))) = (Inl e, s')"
    using r1 o1 o2 o3 by (simp add: withRetry_def)
qed

text \<open>
  Claim C5. \<open>withRetry\<close> calls the operation at most \<open>maxAttempts\<close> times. An error
  that matches none of the transient substrings, or any error on the final attempt,
  is thrown at once: no wait and no further call follow it. A matching error on an
  earlier attempt is followed by a wait of
  \<open>min (baseDelay * backoffMultiplier ^ (attempt - 1)) maxDelay\<close>, the attempt counter
  starting at 1, and then by the next attempt. With
  \<open>{maxAttempts: 3, baseDelay: 1000, backoffMultiplier: 2, maxDelay: 10000}\<close> and an
  operation that always raises a transient error there are exactly three calls, with
  waits of 1000 and then 2000 between them, and the error of the third call is thrown.
\<close>

theorem withRetry_backoff:
  "count_list (snd (withRetry operation retry s)) Invoke \<le> maxAttempts retry
   \<and> (attempt \<le> maxAttempts retry \<and> operation s = (Inl errorMessage, s')
        \<and> (\<not> isRetryableError errorMessage \<or> attempt = maxAttempts retry)
       \<longrightarrow> retryLoop operation retry attempt lastError s
             = ((Inl (Err errorMessage), s'), [Invoke]))
   \<and> (attempt < maxAttempts retry \<and> operation s = (Inl errorMessage, s')
        \<and> isRetryableError errorMessage
       \<longrightarrow> retryLoop operation retry attempt lastError s
             = (fst (retryLoop operation retry (attempt + 1) (Err errorMessage) s'),
                Invoke
                # Wait (min (baseDelay retry * backoffMultiplier retry ^ (attempt - 1))
                            (maxDelay retry))
                # snd (retryLoop operation retry (attempt + 1) (Err errorMessage) s')))
   \<and> (alwaysTransient operation
       \<longrightarrow> snd (withRetry operation exampleRetry s)
             = [Invoke, Wait 1000, Invoke, Wait 2000, Invoke]
           \<and> (\<exists>e s3. fst (withRetry operation exampleRetry s) = (Inl (Err e), s3)
                 \<and> operation (snd (operation (snd (operation s)))) = (Inl e, s3)))"
proof -
  have a: "count_list (snd (withRetry operation retry s)) Invoke \<le> maxAttempts retry"
    using retryLoop_invocations_le[of operation retry 1 UndefinedValue s]
    by (simp add: withRetry_def)
  show ?thesis
    using a retryLoop_propagates[of attempt retry operation s errorMessage s' lastError]
      retryLoop_retries[of attempt retry operation s errorMessage s' lastError]
      withRetry_example[of operation s]
    by (simp add: backoffDelay_def)
qed

lemma timingOut_transient: "alwaysTransient timingOut"
  by (simp add: alwaysTransient_def timingOut_def isRetryableError_def includes_str_def)

theorem withRetry_backoff_witness:
  "count_list (snd (withRetry timingOut exampleRetry 0)) Invoke \<le> 3
   \<and> retryLoop timingOut exampleRetry 3 UndefinedValue 2
       = ((Inl (Err ''Connection timed out''), 3), [Invoke])
   \<and> retryLoop timingOut exampleRetry 2 UndefinedValue 1
       = ((Inl (Err ''Connection timed out''), 3), [Invoke, Wait 2000, Invoke])
   \<and> withRetry timingOut exampleRetry 0
       = ((Inl (Err ''Connection timed out''), 3), [Invoke, Wait 1000, Invoke, Wait 2000, Invoke])"
proof -
  have tr: "isRetryableError ''Connection timed out''"
    by (simp add: isRetryableError_def includes_str_def)
  have final: "retryLoop timingOut exampleRetry 3 lastError 2
       = ((Inl (Err ''Connection timed out''), 3), [Invoke])" for lastError
    using withRetry_backoff[of timingOut exampleRetry 2 3 "''Connection timed out''" 3 lastError]
    by (simp add: timingOut_def exampleRetry_def)
  have second: "retryLoop timingOut exampleRetry 2 UndefinedValue 1
       = ((Inl (Err ''Connection timed out''), 3), [Invoke, Wait 2000, Invoke])"
    using withRetry_backoff[of timingOut exampleRetry 1 2 "''Connection timed out''" 2 UndefinedValue]
      tr final
    by (simp add: timingOut_def exampleRetry_def)
  have whole: "snd (withRetry timingOut exampleRetry 0) = [Invoke, Wait 1000, Invoke, Wait 2000, Invoke]
     \<and> (\<exists>e s3. fst (withRetry timingOut exampleRetry 0) = (Inl (Err e), s3)
                 \<and> timingOut (snd (timingOut (snd (timingOut 0)))) = (Inl e, s3))"
    using withRetry_backoff[of timingOut exampleRetry 0 1 "''Connection timed out''" 1 UndefinedValue]
      timingOut_transient
    by simp
  then have run: "withRetry timingOut exampleRetry 0
       = ((Inl (Err ''Connection timed out''), 3), [Invoke, Wait 1000, Invoke, Wait 2000, Invoke])"
    by (auto simp: timingOut_def prod_eq_iff)
  have cnt: "count_list (snd (withRetry timingOut exampleRetry 0)) Invoke \<le> 3"
    using withRetry_backoff[of timingOut exampleRetry 0 1 "''Connection timed out''" 1 UndefinedValue]
    by (simp add: exampleRetry_def)
  show ?thesis using cnt final second run by simp
qed


text \<open>
  Claim C9. The classifier of \<open>withRetry\<close> counts as transient every message that
  contains \<open>authentication\<close>, \<open>permission denied\<close>, \<open>remote: Repository not found\<close> or
  \<open>remote: Invalid username or password\<close>. So an operation that always fails with
  such a permanent error is not given up on at the first attempt: it is called
  \<open>maxAttempts\<close> times, with the backoff wait after every call but the last, and only
  then is its error thrown.
\<close>

theorem permanent_failures_are_retried:
  "includes_str m ''authentication'' \<or> includes_str m ''permission denied''
     \<or> includes_str m ''remote: Repository not found''
     \<or> includes_str m ''remote: Invalid username or password''
   \<longrightarrow> isRetryableError m
       \<and> (1 \<le> maxAttempts retry
            \<longrightarrow> withRetry (\<lambda>s. (Inl m, s)) retry s =
                  ((Inl (Err m), s),
                   concat (map (\<lambda>attempt. [Invoke, Wait (backoffDelay retry attempt)])
                            [1..<maxAttempts retry]) @ [Invoke]))"
proof (intro impI conjI)
  assume "includes_str m ''authentication'' \<or> includes_str m ''permission denied''
     \<or> includes_str m ''remote: Repository not found''
     \<or> includes_str m ''remote: Invalid username or password''"
  then show r: "isRetryableError m"
    unfolding isRetryableError_def by blast
  assume "1 \<le> maxAttempts retry"
  with r show "withRetry (\<lambda>s. (Inl m, s)) retry s =
                  ((Inl (Err m), s),
                   concat (map (\<lambda>attempt. [Invoke, Wait (backoffDelay retry attempt)])
                            [1..<maxAttempts retry]) @ [Invoke])"
    unfolding withRetry_def
    using retryLoop_constant_failure[of "\<lambda>s. (Inl m, s)" m 1 retry UndefinedValue s]
    by simp
qed

theorem permanent_failures_are_retried_witness:
  "isRetryableError ''remote: Repository not found''
   \<and> withRetry (\<lambda>s::unit. (Inl ''remote: Repository not found'' :: string + unit, s)) exampleRetry ()
       = ((Inl (Err ''remote: Repository not found''), ()),
          [Invoke, Wait 1000, Invoke, Wait 2000, Invoke])"
proof -
  have h: "includes_str ''remote: Repository not found'' ''remote: Repository not found''"
    by (simp add: includes_str_def)
  have n: "1 \<le> maxAttempts exampleRetry"
    by (simp add: exampleRetry_def)
  have l: "[Suc 0..<maxAttempts exampleRetry] = [Suc 0, 2]"
    by (simp add: exampleRetry_def upt_conv_Cons)
  have d: "backoffDelay exampleRetry (Suc 0) = 1000" "backoffDelay exampleRetry 2 = 2000"
    by (simp_all add: exampleRetry_def backoffDelay_def)
  show ?thesis
    using permanent_failures_are_retried[of "''remote: Repository not found''" exampleRetry "()"] h n
    by (simp add: l d)
qed

section \<open>Properties of the configuration check\<close>

lemma stripLeading_Nil [simp]: "stripLeading marks [] = []"
proof -
  have "find (\<lambda>mark. mark \<noteq> [] \<and> startsWith [] mark) marks = None"
    by (induction marks) (auto, metis list.exhaust startsWith.simps(2))
  then show ?thesis
    by (subst stripLeading.simps) simp
qed

lemma startsWith_prefix: "startsWith s p \<longleftrightarrow> prefix p s"
  by (induction s p rule: startsWith.induct) auto

lemma find_only:
  "w \<in> set xs \<Longrightarrow> P w \<Longrightarrow> \<forall>x\<in>set xs. P x \<longrightarrow> x = w \<Longrightarrow> find P xs = Some w"
proof (induction xs)
  case Nil
  then show ?case by simp
next
  case (Cons a xs)
  show ?case
  proof (cases "P a")
    case True
    with Cons.prems(3) have "a = w" by simp
    with True show ?thesis by simp
  next
    case False
    with Cons.prems have "w \<in> set xs" by auto
    from Cons.IH[OF this Cons.prems(2)] Cons.prems(3) False show ?thesis by simp
  qed
qed

lemma whiteSpaces_apart:
  "list_all (\<lambda>a. a \<noteq> [] \<and> list_all (\<lambda>b. a = b \<or> \<not> prefix a b) whiteSpaces) whiteSpaces"
  by code_simp

lemma whiteSpaces_found:
  assumes "space \<in> set whiteSpaces"
  shows "find (\<lambda>mark. mark \<noteq> [] \<and> startsWith (space @ rest) mark) whiteSpaces = Some space"
proof (rule find_only[OF assms])
  from whiteSpaces_apart assms have "space \<noteq> []"
    by (auto simp: list_all_iff)
  then show "space \<noteq> [] \<and> startsWith (space @ rest) space"
    by (simp add: startsWith_prefix)
next
  show "\<forall>mark\<in>set whiteSpaces. mark \<noteq> [] \<and> startsWith (space @ rest) mark \<longrightarrow> mark = space"
  proof (intro ballI impI)
    fix mark assume m: "mark \<in> set whiteSpaces" "mark \<noteq> [] \<and> startsWith (space @ rest) mark"
    then have "prefix mark (space @ rest)"
      by (simp add: startsWith_prefix)
    moreover have "prefix space (space @ rest)"
      by simp
    ultimately have "prefix mark space \<or> prefix space mark"
      by (rule prefix_same_cases)
    moreover from whiteSpaces_apart m(1) assms
    have "mark = space \<or> \<not> prefix mark space" "space = mark \<or> \<not> prefix space mark"
      by (auto simp: list_all_iff)
    ultimately show "mark = space" by blast
  qed
qed

lemma stripLeading_white_space:
  "set spaces \<subseteq> set whiteSpaces \<Longrightarrow> stripLeading whiteSpaces (concat spaces) = []"
proof (induction spaces)
  case Nil
  then show ?case by simp
next
  case (Cons space spaces)
  then have "space \<in> set whiteSpaces" by simp
  from whiteSpaces_found[OF this, of "concat spaces"] Cons show ?case
    by (subst stripLeading.simps) simp
qed

lemma trim_white_space: "set spaces \<subseteq> set whiteSpaces \<Longrightarrow> trim (concat spaces) = []"
  by (simp add: trim_def stripLeading_white_space)

lemma validateConfig_rejects:
  assumes "set spaces \<subseteq> set whiteSpaces"
    and "rulesRepoUrl cfg = concat spaces \<or> globalRulesPath cfg = concat spaces
           \<or> excludePatterns cfg = []"
  shows "\<not> isValid (validateConfig cfg)
     \<and> (\<exists>msg. error (validateConfig cfg) = Some msg \<and> msg \<noteq> [])"
  using assms(2) trim_white_space[OF assms(1)] by (auto simp: validateConfig_def)

lemma checkConfig_invalid:
  assumes "\<not> isValid (validateConfig (config m))"
    and "error (validateConfig (config m)) = Some msg"
    and "msg \<noteq> []"
  shows "checkConfig m w = (Inl (InvalidConfig msg), w)"
  using assms by (simp add: checkConfig_def Let_def)

text \<open>
  Claim C7. When \<open>rulesRepoUrl\<close> or \<open>globalRulesPath\<close> is empty or holds white space
  only (any run of the characters \<open>trim\<close> removes, the no-break space and the other
  spaces of Unicode among them), or \<open>excludePatterns\<close> is the empty list,
  \<open>validateConfig\<close> returns a result with \<open>isValid = false\<close> and a message that is not
  empty, and each of \<open>syncRules\<close>, \<open>pullRules\<close> and \<open>pushRules\<close> fails with that message
  and leaves the state as it found it: no file is written and no call reaches the
  client, so no clone is attempted.
\<close>

theorem invalid_config_fails_before_clone:
  assumes "set spaces \<subseteq> set whiteSpaces"
    and "rulesRepoUrl (config m) = concat spaces
           \<or> globalRulesPath (config m) = concat spaces
           \<or> excludePatterns (config m) = []"
  shows "isValid (validateConfig (config m)) = False
     \<and> (\<exists>msg. error (validateConfig (config m)) = Some msg \<and> msg \<noteq> []
           \<and> syncRules m h workspaceRoot w = (Inl (SyncFailed (InvalidConfig msg)), w)
           \<and> pullRules m h workspaceRoot w = (Inl (PullFailed (InvalidConfig msg)), w)
           \<and> pushRules m h workspaceRoot w = (Inl (PushFailed (InvalidConfig msg)), w))"
proof -
  from validateConfig_rejects[OF assms] obtain msg where
    v: "\<not> isValid (validateConfig (config m))"
    and t: "error (validateConfig (config m)) = Some msg" "msg \<noteq> []"
    by blast
  have c: "checkConfig m w = (Inl (InvalidConfig msg), w)"
    using v t by (rule checkConfig_invalid)
  have s: "syncRules m h workspaceRoot w = (Inl (SyncFailed (InvalidConfig msg)), w)"
    by (simp add: syncRules_def openClone_def andThen_def c)
  have p: "pullRules m h workspaceRoot w = (Inl (PullFailed (InvalidConfig msg)), w)"
    by (simp add: pullRules_def andThen_def c)
  have q: "pushRules m h workspaceRoot w = (Inl (PushFailed (InvalidConfig msg)), w)"
    by (simp add: pushRules_def openClone_def andThen_def c)
  show ?thesis using v t s p q by blast
qed

theorem invalid_config_fails_before_clone_witness:
  "rulesRepoUrl (config blankManager)
     = concat [[CHR 0x20], [CHR 0xC2, CHR 0xA0], [CHR 0xE2, CHR 0x80, CHR 0x83],
               [CHR 0xEF, CHR 0xBB, CHR 0xBF], [CHR 0x09]]
   \<and> isValid (validateConfig (config blankManager)) = False
   \<and> error (validateConfig (config blankManager)) =
       Some (''The URL of the rules repository is not set. Please set Rules Repo Url ''
             @ ''in the extension settings and restart the IDE.'')
   \<and> fst (syncRules blankManager rejectingHost projectRoot projectWorld) =
       Inl (SyncFailed (InvalidConfig
         (''The URL of the rules repository is not set. Please set Rules Repo Url ''
          @ ''in the extension settings and restart the IDE.'')))
   \<and> snd (syncRules blankManager rejectingHost projectRoot projectWorld) = projectWorld
   \<and> snd (pullRules blankManager rejectingHost projectRoot projectWorld) = projectWorld
   \<and> snd (pushRules blankManager rejectingHost projectRoot projectWorld) = projectWorld
   \<and> calls projectWorld = []"
proof -
  let ?spaces = "[[CHR 0x20], [CHR 0xC2, CHR 0xA0], [CHR 0xE2, CHR 0x80, CHR 0x83],
      [CHR 0xEF, CHR 0xBB, CHR 0xBF], [CHR 0x09]]"
  have white: "set ?spaces \<subseteq> set whiteSpaces"
    by (simp add: whiteSpaces_def)
  have blank: "rulesRepoUrl (config blankManager) = concat ?spaces"
    by (simp add: blankManager_def projectConfig_def)
  have msg: "error (validateConfig (config blankManager)) =
       Some (''The URL of the rules repository is not set. Please set Rules Repo Url ''
             @ ''in the extension settings and restart the IDE.'')"
    by code_simp
  have fresh: "calls projectWorld = []"
    by (simp add: projectWorld_def)
  from invalid_config_fails_before_clone[OF white, of blankManager rejectingHost projectRoot
      projectWorld] blank msg fresh
  show ?thesis
    by auto
qed

section \<open>Properties of the calls to the client\<close>

lemma git_calls: "calls (snd (git h c w)) = calls w @ [c]"
  by (simp add: git_def Let_def split: option.splits)

lemma retryLoop_git_calls:
  "operation = git h c \<Longrightarrow>
     \<exists>k. calls (snd (fst (retryLoop operation retry attempt lastError w))) = calls w @ replicate k c"
proof (induction operation retry attempt lastError w rule: retryLoop.induct)
  case (1 operation retry attempt lastError w)
  show ?case
  proof (cases "attempt \<le> maxAttempts retry")
    case False
    then show ?thesis
      by (subst retryLoop.simps) (simp add: exI[of _ 0])
  next
    case True
    obtain r w1 where op: "operation w = (r, w1)" by (cases "operation w")
    have c1: "calls w1 = calls w @ [c]"
      using op "1.prems" git_calls[of h c w] by simp
    show ?thesis
    proof (cases r)
      case (Inr v)
      with True op c1 show ?thesis
        by (subst retryLoop.simps) (simp add: exI[of _ 1])
    next
      case (Inl errorMessage)
      show ?thesis
      proof (cases "\<not> isRetryableError errorMessage \<or> attempt = maxAttempts retry")
        case True
        with \<open>attempt \<le> maxAttempts retry\<close> op c1 Inl show ?thesis
          by (subst retryLoop.simps) (auto simp add: exI[of _ 1])
      next
        case False
        have op': "operation w = (Inl errorMessage, w1)"
          using op Inl by simp
        from "1.IH"[OF \<open>attempt \<le> maxAttempts retry\<close> op'[symmetric] refl False "1.prems"]
        obtain k where k: "calls (snd (fst (retryLoop operation retry (attempt + 1) (Err errorMessage) w1)))
            = calls w1 @ replicate k c"
          by auto
        have "calls (snd (fst (retryLoop operation retry attempt lastError w)))
            = calls w @ replicate (Suc k) c"
          using False \<open>attempt \<le> maxAttempts retry\<close> op Inl k c1
          by (subst retryLoop.simps) (auto split: prod.splits simp: replicate_append_same)
        then show ?thesis by blast
      qed
    qed
  qed
qed

lemma gitRetrying_calls:
  "\<exists>k. calls (snd (gitRetrying retry h c w)) = calls w @ replicate k c"
proof -
  from retryLoop_git_calls[of "git h c" h c retry 1 UndefinedValue w]
  obtain k where "calls (snd (fst (withRetry (git h c) retry w))) = calls w @ replicate k c"
    by (auto simp: withRetry_def)
  then show ?thesis
    by (auto simp: gitRetrying_def split: prod.splits sum.splits)
qed

lemma gitRetrying_callsD:
  "gitRetrying retry h c w = (r, w1) \<Longrightarrow> \<exists>k. calls w1 = calls w @ replicate k c"
  using gitRetrying_calls[of retry h c w] by simp

lemma gitStep_callsD: "gitStep h c w = (r, w1) \<Longrightarrow> calls w1 = calls w @ [c]"
  using git_calls[of h c w] by (auto simp: gitStep_def split: prod.splits sum.splits)

lemma onDisk_callsD: "onDisk action w = (r, w1) \<Longrightarrow> calls w1 = calls w"
  by (auto simp: onDisk_def split: prod.splits)

lemma checkConfig_callsD: "checkConfig m w = (r, w1) \<Longrightarrow> calls w1 = calls w"
  by (auto simp: checkConfig_def Let_def split: if_splits)

lemma openClone_callsD:
  "openClone m h workspaceRoot w = (r, w1) \<Longrightarrow> \<exists>k. calls w1 = calls w @ replicate k Clone"
  unfolding openClone_def andThen_def
  by (auto split: prod.splits sum.splits
        dest!: checkConfig_callsD onDisk_callsD gitRetrying_callsD intro: exI[of _ 0])

lemma compareAndCopy_callsD:
  "compareAndCopy m h workspaceRoot w = (r, w1) \<Longrightarrow> calls w1 = calls w"
  unfolding compareAndCopy_def andThen_def succeed_def Let_def
  by (auto split: prod.splits sum.splits dest!: onDisk_callsD)

lemma git_other:
  "c \<noteq> Clone \<Longrightarrow> git h c w =
     (case answer h c (count_list (calls w) c) of
        Some errorMessage \<Rightarrow> Inl errorMessage
      | None \<Rightarrow> Inr (),
      w\<lparr>calls := calls w @ [c]\<rparr>)"
  by (simp add: git_def Let_def split: option.splits)

lemma gitStep_other:
  "c \<noteq> Clone \<Longrightarrow> gitStep h c w =
     (case answer h c (count_list (calls w) c) of
        Some errorMessage \<Rightarrow> Inl (ClientError (Err errorMessage))
      | None \<Rightarrow> Inr (),
      w\<lparr>calls := calls w @ [c]\<rparr>)"
  by (simp add: gitStep_def git_other split: option.splits)

lemma publishSync_reaches_push:
  assumes "Pull \<notin> set (calls w)" and "Push \<notin> set (calls w)"
    and "Pull \<in> set (calls (snd (publishSync h w)))"
  shows "calls (snd (publishSync h w)) = calls w @ [Cwd, Status, Add, Status, Commit, Pull, Push]
     \<and> fst (publishSync h w) =
         (case answer h Push 0 of None \<Rightarrow> Inr () | Some errorMessage \<Rightarrow> Inl (pushFailure errorMessage))"
proof -
  have p0: "count_list (calls w) Push = 0"
    using assms(2) by (simp add: count_list_0_iff)
  show ?thesis
    using assms(1,3) p0
    unfolding publishSync_def andThen_def succeed_def
    by (simp add: gitStep_other git_other split: option.splits if_splits)
qed


text \<open>
  Claim C8. In \<open>syncRules\<close> the pull made just before the push may fail or not: either
  way the next call is the push. When the push fails, the error of the call is the
  conflict error if the message of the push contains \<open>fetch first\<close> or \<open>rejected\<close>,
  and the generic push error carrying the message otherwise; these are two different
  errors, and in both cases \<open>syncRules\<close> fails. The run starts with no call made.
\<close>

theorem syncRules_push_failure:
  assumes "calls w = []"
    and "Pull \<in> set (calls (snd (syncRules m h workspaceRoot w)))"
  shows "(\<exists>before. calls (snd (syncRules m h workspaceRoot w)) = before @ [Pull, Push])
     \<and> (case answer h Push 0 of
          None \<Rightarrow> \<exists>stats. fst (syncRules m h workspaceRoot w) = Inr stats
        | Some errorMessage \<Rightarrow>
            fst (syncRules m h workspaceRoot w) =
              Inl (SyncFailed
                     (if includes_str errorMessage ''fetch first''
                         \<or> includes_str errorMessage ''rejected''
                      then SyncConflict
                      else PushRejected errorMessage)))"
proof -
  obtain r1 w1 where o: "openClone m h workspaceRoot w = (r1, w1)"
    by (cases "openClone m h workspaceRoot w")
  from openClone_callsD[OF o] assms(1) obtain k where c1: "calls w1 = replicate k Clone"
    by auto
  show ?thesis
  proof (cases r1)
    case (Inl e)
    with o c1 assms(2) show ?thesis
      by (simp add: syncRules_def andThen_def)
  next
    case (Inr u)
    obtain r2 w2 where cc: "compareAndCopy m h workspaceRoot w1 = (r2, w2)"
      by (cases "compareAndCopy m h workspaceRoot w1")
    from compareAndCopy_callsD[OF cc] c1 have c2: "calls w2 = replicate k Clone"
      by simp
    show ?thesis
    proof (cases r2)
      case (Inl e)
      with o \<open>r1 = Inr u\<close> cc c2 assms(2) show ?thesis
        by (simp add: syncRules_def andThen_def)
    next
      case (Inr changes)
      have run: "syncRules m h workspaceRoot w =
          (case publishSync h w2 of
             (Inl e, w3) \<Rightarrow> (Inl (SyncFailed e), w3)
           | (Inr v, w3) \<Rightarrow> (Inr (statsOf changes), w3))"
        using o \<open>r1 = Inr u\<close> cc Inr
        by (simp add: syncRules_def andThen_def succeed_def split: prod.splits sum.splits)
      have reached: "Pull \<in> set (calls (snd (publishSync h w2)))"
        using assms(2) run by (auto split: prod.splits sum.splits)
      have fresh: "Pull \<notin> set (calls w2)" "Push \<notin> set (calls w2)"
        using c2 by auto
      from publishSync_reaches_push[OF fresh reached]
      have p: "calls (snd (publishSync h w2)) = calls w2 @ [Cwd, Status, Add, Status, Commit, Pull, Push]"
        and q: "fst (publishSync h w2) =
         (case answer h Push 0 of None \<Rightarrow> Inr () | Some errorMessage \<Rightarrow> Inl (pushFailure errorMessage))"
        by simp_all
      have "calls (snd (syncRules m h workspaceRoot w))
          = (calls w2 @ [Cwd, Status, Add, Status, Commit]) @ [Pull, Push]"
        using run p by (auto split: prod.splits sum.splits)
      then have a: "\<exists>before. calls (snd (syncRules m h workspaceRoot w)) = before @ [Pull, Push]"
        by blast
      have b: "(case answer h Push 0 of
          None \<Rightarrow> \<exists>stats. fst (syncRules m h workspaceRoot w) = Inr stats
        | Some errorMessage \<Rightarrow>
            fst (syncRules m h workspaceRoot w) =
              Inl (SyncFailed
                     (if includes_str errorMessage ''fetch first''
                         \<or> includes_str errorMessage ''rejected''
                      then SyncConflict
                      else PushRejected errorMessage)))"
        using run q by (auto simp: pushFailure_def split: prod.splits sum.splits option.splits)
      from a b show ?thesis by blast
    qed
  qed
qed


theorem syncRules_push_failure_witness:
  "calls projectWorld = []
   \<and> answer rejectingHost Pull 0 = Some ''Could not resolve host: example.org''
   \<and> answer rejectingHost Push 0 = Some ''! [rejected] main -> main (fetch first)''
   \<and> calls (snd (syncRules projectManager rejectingHost projectRoot projectWorld)) =
       [Clone, Cwd, Status, Add, Status, Commit] @ [Pull, Push]
   \<and> fst (syncRules projectManager rejectingHost projectRoot projectWorld) =
       Inl (SyncFailed SyncConflict)"
proof -
  have fresh: "calls projectWorld = []"
    by (simp add: projectWorld_def)
  have trace: "calls (snd (syncRules projectManager rejectingHost projectRoot projectWorld)) =
       [Clone, Cwd, Status, Add, Status, Commit] @ [Pull, Push]"
    by code_simp
  then have reached: "Pull \<in> set (calls (snd (syncRules projectManager rejectingHost projectRoot projectWorld)))"
    by simp
  have a: "answer rejectingHost Pull 0 = Some ''Could not resolve host: example.org''"
    "answer rejectingHost Push 0 = Some ''! [rejected] main -> main (fetch first)''"
    by (simp_all add: rejectingHost_def)
  have r: "includes_str ''! [rejected] main -> main (fetch first)'' ''rejected''"
    by code_simp
  show ?thesis
    using syncRules_push_failure[OF fresh reached] fresh trace a r
    by simp
qed

section \<open>Properties of the file system\<close>

lemma fileAt_Nil [simp]: "fileAt tree [] = None"
  by (simp add: fileAt_def)

lemma fileAt_empty [simp]: "fileAt [] p = None"
  by (cases p) (simp_all add: fileAt_def)

lemma fileAt_Cons:
  "fileAt tree (n # ns) =
     (case map_of tree n of
        None \<Rightarrow> None
      | Some (File c) \<Rightarrow> (if ns = [] then Some c else None)
      | Some (Dir sub) \<Rightarrow> fileAt sub ns)"
  by (simp add: fileAt_def split: option.splits node.splits)

lemma fileAt_update:
  "fileAt (AList.update n v tree) (a # qs) =
     (if a = n then (case v of File c \<Rightarrow> (if qs = [] then Some c else None) | Dir sub \<Rightarrow> fileAt sub qs)
      else fileAt tree (a # qs))"
  by (simp add: fileAt_Cons update_conv' split: node.splits)

lemma writeFileSync_fileAt:
  "writeFileSync p c tree = Inr tree' \<Longrightarrow> fileAt tree' q = (if q = p then Some c else fileAt tree q)"
proof (induction p c tree arbitrary: tree' q rule: writeFileSync.induct)
  case (1 content tree)
  then show ?case by simp
next
  case (2 n content tree)
  then show ?case
    by (cases q) (auto simp: fileAt_Cons update_conv' split: option.splits node.splits if_splits)
next
  case (3 n v va content tree)
  from "3.prems" obtain sub sub' where s: "map_of tree n = Some (Dir sub)"
    "writeFileSync (v # va) content sub = Inr sub'" "tree' = AList.update n (Dir sub') tree"
    by (auto split: option.splits node.splits sum.splits)
  show ?case
  proof (cases q)
    case Nil
    then show ?thesis by simp
  next
    case (Cons a qs)
    show ?thesis
      using "3.IH"[OF s(1) refl s(2), of qs] s Cons
      by (auto simp: fileAt_Cons update_conv')
  qed
qed

lemma mkdirSync_fileAt:
  "mkdirSync p tree = Inr tree' \<Longrightarrow> fileAt tree' q = fileAt tree q"
proof (induction p tree arbitrary: tree' q rule: mkdirSync.induct)
  case (1 tree)
  then show ?case by simp
next
  case (2 n ns tree)
  show ?case
  proof (cases q)
    case Nil
    then show ?thesis by simp
  next
    case (Cons a qs)
    show ?thesis
    proof (cases "map_of tree n")
      case None
      with "2.prems" obtain sub where s: "mkdirSync ns [] = Inr sub" "tree' = AList.update n (Dir sub) tree"
        by (auto split: sum.splits)
      from "2.IH"(1)[OF None s(1), of qs] have "fileAt sub qs = None" by simp
      with s None Cons show ?thesis
        by (auto simp: fileAt_Cons update_conv')
    next
      case (Some v)
      show ?thesis
      proof (cases v)
        case (File c)
        with Some "2.prems" show ?thesis by simp
      next
        case (Dir sub)
        with Some "2.prems" obtain sub' where s: "mkdirSync ns sub = Inr sub'"
          "tree' = AList.update n (Dir sub') tree"
          by (auto split: sum.splits)
        from "2.IH"(2)[OF Some Dir s(1), of qs] s Some Dir Cons show ?thesis
          by (auto simp: fileAt_Cons update_conv')
      qed
    qed
  qed
qed






section \<open>Properties of the frontmatter merge\<close>










lemma utf8Text_ascii: "list_all (\<lambda>c. (of_char c :: nat) < 0x80) bytes \<Longrightarrow> utf8Text bytes = bytes"
  by (induction bytes) simp_all




section \<open>Properties of the rule scan\<close>

text \<open>
  Claim C6, at the input where the code departs from it. The rule root holds the file
  \<open>my-project.md\<close> and \<open>my-project\<close> is an exclusion pattern. The name without its
  extension matches the pattern, and the fingerprint scan of \<open>syncRules\<close> leaves the
  file out for that reason (through \<open>shouldExclude\<close>); \<open>getRulesStructure\<close> compares
  the whole name \<open>my-project.md\<close> with the patterns and lists the file among the
  global rules.
\<close>

theorem getRulesStructure_matches_full_name:
  "getRulesStructure projectConfig stemTree projectRoot =
     Inr \<lparr>localRules = [],
          globalRules = [\<lparr>name = ''my-project.md'',
                          path = [''home'', ''project'', ''.cursor'', ''rules'', ''my-project.md''],
                          files = [[''home'', ''project'', ''.cursor'', ''rules'', ''my-project.md'']],
                          isDirectory = False\<rparr>]\<rparr>
   \<and> hd (splitOn CHR ''.'' ''my-project.md'') \<in> set (excludePatterns projectConfig)
   \<and> shouldExcludeFromRulesRepo ''.cursor/rules/my-project.md'' (excludePatterns projectConfig)
   \<and> getAllFilesWithHash projectConfig rejectingHost projectRoot
         [''home'', ''project'', ''.cursor'', ''rules''] stemTree = Inr []"
  by code_simp

section \<open>Properties of the pull\<close>

lemma pullEntries_count:
  "pullEntries patterns repoRules rulesDir items copied tree = (Inr n, tree') \<Longrightarrow>
     n = copied + length (filter (\<lambda>(entryName, item). entryName \<notin> set patterns) items)"
proof (induction items arbitrary: copied tree)
  case Nil
  then show ?case by simp
next
  case (Cons entry items)
  obtain entryName item where e: "entry = (entryName, item)" by (cases entry)
  show ?case
  proof (cases "entryName \<in> set patterns")
    case True
    with Cons e show ?thesis by simp
  next
    case False
    with Cons.prems e obtain tree1 where
      "pullEntries patterns repoRules rulesDir items (copied + 1) tree1 = (Inr n, tree')"
      by (auto simp: andThen_def split: prod.splits sum.splits)
    from Cons.IH[OF this] False e show ?thesis by simp
  qed
qed

lemma nodeAt_plant: "nodeAt (plant p content tree) (p @ q) = nodeAt content q"
  by (induction p content tree rule: plant.induct) (simp_all add: update_conv')

lemma mkdirSync_nodeAt:
  "mkdirSync p tree = Inr tree' \<Longrightarrow> \<not> prefix q p \<Longrightarrow> nodeAt tree' q = nodeAt tree q"
proof (induction p tree arbitrary: tree' q rule: mkdirSync.induct)
  case (1 tree)
  then show ?case by simp
next
  case (2 n ns tree)
  from "2.prems"(2) obtain a qs where q: "q = a # qs" by (cases q) auto
  show ?case
  proof (cases "a = n")
    case False
    with "2.prems" q show ?thesis
      by (auto simp: update_conv' split: option.splits node.splits sum.splits if_splits)
  next
    case True
    with "2.prems"(2) q have np: "\<not> prefix qs ns" by simp
    then have qs: "qs \<noteq> []" by auto
    show ?thesis
    proof (cases "map_of tree n")
      case None
      with "2.prems" obtain sub where s: "mkdirSync ns [] = Inr sub" "tree' = AList.update n (Dir sub) tree"
        by (auto split: sum.splits)
      from "2.IH"(1)[OF None s(1) np] qs have "nodeAt sub qs = None"
        by (cases qs) auto
      with s None q True show ?thesis by (simp add: update_conv')
    next
      case (Some v)
      show ?thesis
      proof (cases v)
        case (File c)
        with Some "2.prems" show ?thesis by simp
      next
        case (Dir sub)
        with Some "2.prems" obtain sub' where s: "mkdirSync ns sub = Inr sub'"
          "tree' = AList.update n (Dir sub') tree"
          by (auto split: sum.splits)
        from "2.IH"(2)[OF Some Dir s(1) np] s Some Dir q True show ?thesis
          by (simp add: update_conv')
      qed
    qed
  qed
qed


lemma git_disk:
  "git h c w = (r, w1) \<Longrightarrow>
     disk w1 = (case r of
                  Inl e \<Rightarrow> disk w
                | Inr v \<Rightarrow> if c = Clone then plant (tempDir h) (repository h) (disk w) else disk w)"
  by (auto simp: git_def Let_def split: option.splits)

lemma retryLoop_git_disk:
  "operation = git h c \<Longrightarrow> fst (retryLoop operation retry attempt lastError w) = (r, w') \<Longrightarrow>
     disk w' = (case r of
                  Inl e \<Rightarrow> disk w
                | Inr v \<Rightarrow> if c = Clone then plant (tempDir h) (repository h) (disk w) else disk w)"
proof (induction operation retry attempt lastError w rule: retryLoop.induct)
  case (1 operation retry attempt lastError w)
  show ?case
  proof (cases "attempt \<le> maxAttempts retry")
    case False
    with "1.prems"(2) show ?thesis
      by (subst (asm) retryLoop.simps) auto
  next
    case True
    obtain r1 w1 where op: "operation w = (r1, w1)" by (cases "operation w")
    from git_disk[of h c w r1 w1] op "1.prems"(1)
    have d1: "disk w1 = (case r1 of
                  Inl e \<Rightarrow> disk w
                | Inr v \<Rightarrow> if c = Clone then plant (tempDir h) (repository h) (disk w) else disk w)"
      by simp
    show ?thesis
    proof (cases r1)
      case (Inr v)
      with True op "1.prems"(2) d1 show ?thesis
        by (subst (asm) retryLoop.simps) auto
    next
      case (Inl errorMessage)
      show ?thesis
      proof (cases "\<not> isRetryableError errorMessage \<or> attempt = maxAttempts retry")
        case True
        with \<open>attempt \<le> maxAttempts retry\<close> op Inl "1.prems"(2) d1 show ?thesis
          by (subst (asm) retryLoop.simps) auto
      next
        case False
        have op': "operation w = (Inl errorMessage, w1)"
          using op Inl by simp
        have rec: "fst (retryLoop operation retry (attempt + 1) (Err errorMessage) w1) = (r, w')"
          using "1.prems"(2) False \<open>attempt \<le> maxAttempts retry\<close> op'
          by (subst (asm) retryLoop.simps) (auto split: prod.splits)
        from "1.IH"[OF \<open>attempt \<le> maxAttempts retry\<close> op'[symmetric] refl False "1.prems"(1) rec]
          d1 Inl show ?thesis
          by (cases r) auto
      qed
    qed
  qed
qed

lemma gitRetrying_disk:
  "gitRetrying retry h c w = (r, w') \<Longrightarrow>
     disk w' = (case r of
                  Inl e \<Rightarrow> disk w
                | Inr v \<Rightarrow> if c = Clone then plant (tempDir h) (repository h) (disk w) else disk w)"
proof -
  assume g: "gitRetrying retry h c w = (r, w')"
  obtain r0 w0 where f: "fst (withRetry (git h c) retry w) = (r0, w0)"
    by (cases "fst (withRetry (git h c) retry w)")
  from retryLoop_git_disk[OF refl, of h c retry 1 UndefinedValue w r0 w0] f
  have d: "disk w0 = (case r0 of
                  Inl e \<Rightarrow> disk w
                | Inr v \<Rightarrow> if c = Clone then plant (tempDir h) (repository h) (disk w) else disk w)"
    by (simp add: withRetry_def)
  from g f d show ?thesis
    by (auto simp: gitRetrying_def split: sum.splits)
qed

lemma ensureDir_nodeAt:
  "ensureDir p tree = (Inr v, tree') \<Longrightarrow> \<not> prefix q p \<Longrightarrow> nodeAt tree' q = nodeAt tree q"
  by (auto simp: ensureDir_def changing_def split: if_splits sum.splits dest: mkdirSync_nodeAt)

text \<open>
  Claim C10. A \<open>pullRules\<close> that returns its statistics returns \<open>modified = 0\<close>,
  \<open>deleted = 0\<close> and \<open>total = added\<close>, and \<open>added\<close> is the number of entries at the top
  of the repository's rule directory whose names are not exclusion patterns (0 when
  the repository has no rule directory): a directory counts once, however many files
  are under it. The clone's rule directory is taken not to lie on the path to the
  workspace's.
\<close>

theorem pullRules_counts_top_level_entries:
  assumes "\<not> prefix (repoRulesPath m h) (localRulesPath m workspaceRoot)"
    and "pullRules m h workspaceRoot w = (Inr stats, w')"
  shows "modified stats = 0 \<and> deleted stats = 0 \<and> total stats = added stats
     \<and> added stats =
         (case nodeAt (repository h) (pathOf (globalRulesPath (config m))) of
            Some (Dir items) \<Rightarrow>
              length (filter (\<lambda>(entryName, item). entryName \<notin> set (excludePatterns (config m)))
                        items)
          | _ \<Rightarrow> 0)"
proof -
  let ?count = "case nodeAt (repository h) (pathOf (globalRulesPath (config m))) of
            Some (Dir items) \<Rightarrow>
              length (filter (\<lambda>(entryName, item). entryName \<notin> set (excludePatterns (config m)))
                        items)
          | _ \<Rightarrow> 0"
  from assms(2) obtain w1 w2 w3 u1 u2 u3 copied tree4 where
    st: "checkConfig m w = (Inr u1, w1)"
      "onDisk (ensureGitignore h workspaceRoot (excludePatterns (config m))) w1 = (Inr u2, w2)"
      "gitRetrying (retryConfig m) h Clone w2 = (Inr u3, w3)"
    and body: "(if existsSync (disk w3) (repoRulesPath m h)
                then andThen (ensureDir (localRulesPath m workspaceRoot))
                       (\<lambda>_. andThen (reading (\<lambda>t. readdirSync t (repoRulesPath m h)))
                       (\<lambda>items. pullEntries (excludePatterns (config m))
                                   (repoRulesPath m h) (localRulesPath m workspaceRoot)
                                   items 0))
                       (disk w3)
                else (Inr 0, disk w3)) = (Inr copied, tree4)"
    and stats: "stats = \<lparr>added = copied, modified = 0, deleted = 0, total = copied + 0 + 0\<rparr>"
    by (auto simp: pullRules_def andThen_def succeed_def onDisk_def
          split: prod.splits sum.splits)
  from gitRetrying_disk[OF st(3)]
  have d3: "disk w3 = plant (tempDir h) (repository h) (disk w2)"
    by simp
  have at: "nodeAt (disk w3) (repoRulesPath m h)
      = nodeAt (repository h) (pathOf (globalRulesPath (config m)))"
    by (simp add: d3 repoRulesPath_def nodeAt_plant)
  have "copied = ?count"
  proof (cases "existsSync (disk w3) (repoRulesPath m h)")
    case False
    with body at show ?thesis
      by (auto simp: existsSync_def)
  next
    case True
    with body obtain u tree1 items where
      e: "ensureDir (localRulesPath m workspaceRoot) (disk w3) = (Inr u, tree1)"
      and l: "readdirSync tree1 (repoRulesPath m h) = Inr items"
      and p: "pullEntries (excludePatterns (config m)) (repoRulesPath m h)
                (localRulesPath m workspaceRoot) items 0 tree1 = (Inr copied, tree4)"
      by (auto simp: andThen_def reading_def split: prod.splits sum.splits)
    from ensureDir_nodeAt[OF e assms(1)] at
    have "nodeAt tree1 (repoRulesPath m h)
        = nodeAt (repository h) (pathOf (globalRulesPath (config m)))"
      by simp
    with l have "nodeAt (repository h) (pathOf (globalRulesPath (config m))) = Some (Dir items)"
      by (auto simp: readdirSync_def split: option.splits node.splits)
    with pullEntries_count[OF p] show ?thesis by simp
  qed
  with stats show ?thesis by simp
qed


theorem pullRules_counts_top_level_entries_witness:
  "\<not> prefix (repoRulesPath projectManager pullHost) (localRulesPath projectManager projectRoot)
   \<and> nodeAt (repository pullHost) (pathOf (globalRulesPath (config projectManager))) =
       Some (Dir [(''core'', Dir [(''naming.md'', File ''names''), (''errors.md'', File ''errors'')]),
                  (''style.md'', File ''style''),
                  (''my-project'', Dir [(''template.md'', File ''template'')])])
   \<and> fst (pullRules projectManager pullHost projectRoot projectWorld) =
       Inr \<lparr>added = 2, modified = 0, deleted = 0, total = 2\<rparr>"
proof -
  have apart: "\<not> prefix (repoRulesPath projectManager pullHost)
                  (localRulesPath projectManager projectRoot)"
    by code_simp
  have remote: "nodeAt (repository pullHost) (pathOf (globalRulesPath (config projectManager))) =
       Some (Dir [(''core'', Dir [(''naming.md'', File ''names''), (''errors.md'', File ''errors'')]),
                  (''style.md'', File ''style''),
                  (''my-project'', Dir [(''template.md'', File ''template'')])])"
    by code_simp
  obtain stats w' where run: "pullRules projectManager pullHost projectRoot projectWorld = (Inr stats, w')"
    by (cases "pullRules projectManager pullHost projectRoot projectWorld",
        cases "fst (pullRules projectManager pullHost projectRoot projectWorld)")
       (simp_all, code_simp)
  have patterns: "excludePatterns (config projectManager) = [''my-project'']"
    by (simp add: projectManager_def projectConfig_def)
  from pullRules_counts_top_level_entries[OF apart run] remote patterns
  have "modified stats = 0 \<and> deleted stats = 0 \<and> total stats = added stats \<and> added stats = 2"
    by simp
  then have "stats = \<lparr>added = 2, modified = 0, deleted = 0, total = 2\<rparr>"
    by (cases stats) simp
  with run apart remote show ?thesis by simp
qed

section \<open>Properties of the copy phase\<close>

lemma changing_mkdir_keeps:
  "changing (mkdirSync p) tree = (res, tree') \<Longrightarrow> fileAt tree' q = fileAt tree q"
  by (auto simp: changing_def split: sum.splits dest: mkdirSync_fileAt)

lemma ensureDir_fileAt:
  "ensureDir p tree = (res, tree') \<Longrightarrow> fileAt tree' q = fileAt tree q"
  by (auto simp: ensureDir_def split: if_splits dest: changing_mkdir_keeps)

lemma writeFileSync_keeps:
  "writeFileSync p c tree = Inr tree' \<Longrightarrow> dom (fileAt tree) \<subseteq> dom (fileAt tree')"
proof
  fix q
  assume w: "writeFileSync p c tree = Inr tree'" and "q \<in> dom (fileAt tree)"
  with writeFileSync_fileAt[OF w, of q] show "q \<in> dom (fileAt tree')"
    by (auto split: if_splits)
qed

lemma changing_write_keeps:
  "changing (writeFileSync p c) tree = (res, tree') \<Longrightarrow> dom (fileAt tree) \<subseteq> dom (fileAt tree')"
  using writeFileSync_keeps[of p c tree]
  by (auto simp: changing_def split: sum.splits)

lemma changing_copy_keeps:
  "changing (copyFileSync s d) tree = (res, tree') \<Longrightarrow> dom (fileAt tree) \<subseteq> dom (fileAt tree')"
  using writeFileSync_keeps[of d _ tree]
  by (auto simp: changing_def copyFileSync_def split: sum.splits)

lemma reading_same: "reading look tree = (res, tree') \<Longrightarrow> tree' = tree"
  by (auto simp: reading_def split: sum.splits)

lemma copyFileForSync_keeps:
  assumes "copyFileForSync cfg source destination tree = (res, tree')"
  shows "dom (fileAt tree) \<subseteq> dom (fileAt tree')"
proof -
  obtain r1 tree1 where e: "ensureDir (butlast destination) tree = (r1, tree1)"
    by (cases "ensureDir (butlast destination) tree")
  from ensureDir_fileAt[OF e] have same: "fileAt tree1 = fileAt tree"
    by (intro ext)
  show ?thesis
  proof (cases r1)
    case (Inl err)
    with assms e same show ?thesis
      by (auto simp: copyFileForSync_def andThen_def)
  next
    case (Inr u)
    from assms e Inr have
      "dom (fileAt tree1) \<subseteq> dom (fileAt tree')"
      by (auto simp: copyFileForSync_def andThen_def
            split: if_splits prod.splits sum.splits option.splits
            dest!: reading_same changing_write_keeps changing_copy_keeps)
    with same show ?thesis by simp
  qed
qed

lemma copyChanged_keeps:
  "copyChanged cfg localDir repoDir toCopyList tree = (res, tree') \<Longrightarrow>
     dom (fileAt tree) \<subseteq> dom (fileAt tree')"
proof (induction toCopyList arbitrary: tree)
  case Nil
  then show ?case by simp
next
  case (Cons f rest)
  obtain r1 tree1 where e: "ensureDir (butlast (repoDir @ f)) tree = (r1, tree1)"
    by (cases "ensureDir (butlast (repoDir @ f)) tree")
  from ensureDir_fileAt[OF e] have same: "fileAt tree1 = fileAt tree"
    by (intro ext)
  show ?case
  proof (cases r1)
    case (Inl err)
    with Cons.prems e same show ?thesis
      by (auto simp: andThen_def Let_def)
  next
    case (Inr u)
    obtain r2 tree2 where c: "copyFileForSync cfg (localDir @ f) (repoDir @ f) tree1 = (r2, tree2)"
      by (cases "copyFileForSync cfg (localDir @ f) (repoDir @ f) tree1")
    from copyFileForSync_keeps[OF c] same have k: "dom (fileAt tree) \<subseteq> dom (fileAt tree2)"
      by simp
    show ?thesis
    proof (cases r2)
      case (Inl err)
      with Cons.prems e \<open>r1 = Inr u\<close> c k show ?thesis
        by (auto simp: andThen_def Let_def)
    next
      case (Inr u2)
      with Cons.prems e \<open>r1 = Inr u\<close> c
      have "copyChanged cfg localDir repoDir rest tree2 = (res, tree')"
        by (auto simp: andThen_def Let_def)
      from Cons.IH[OF this] k show ?thesis by blast
    qed
  qed
qed

lemma onDisk_reading: "onDisk (reading look) w = (res, w') \<Longrightarrow> w' = w"
  by (auto simp: onDisk_def reading_def split: sum.splits prod.splits)

lemma compareAndCopy_keeps:
  assumes "compareAndCopy m h workspaceRoot w = (res, w')"
  shows "dom (fileAt (disk w)) \<subseteq> dom (fileAt (disk w'))"
  using assms
  unfolding compareAndCopy_def andThen_def succeed_def Let_def
  by (auto split: prod.splits sum.splits dest!: onDisk_reading)
     (auto simp: onDisk_def split: prod.splits dest!: copyChanged_keeps)

lemma publishSync_disk: "disk (snd (publishSync h w)) = disk w"
  unfolding publishSync_def andThen_def succeed_def
  by (simp add: gitStep_other git_other split: option.splits)

lemma publishPush_disk: "disk (snd (publishPush m h w)) = disk w"
proof -
  have r: "disk (snd (gitRetrying retry h c w0)) = disk w0" if "c \<noteq> Clone" for retry c w0
    using gitRetrying_disk[of retry h c w0 "fst (gitRetrying retry h c w0)" "snd (gitRetrying retry h c w0)"] that
    by (auto split: sum.splits)
  show ?thesis
    unfolding publishPush_def andThen_def succeed_def
    by (simp add: gitStep_other r split: option.splits prod.splits sum.splits)
qed


lemma compareRepo_result:
  "compareRepo keys localFiles changes =
     changes\<lparr>ChangeSet.deleted := ChangeSet.deleted changes
                    + length (filter (\<lambda>k. \<not> hasKey localFiles k) keys),
              toDelete := toDelete changes @ filter (\<lambda>k. \<not> hasKey localFiles k) keys\<rparr>"
  by (induction keys arbitrary: changes) auto

lemma compareLocal_result:
  "compareLocal entries repoFiles changes =
     changes\<lparr>ChangeSet.added := ChangeSet.added changes
                    + length (filter (\<lambda>(k, d). \<not> hasKey repoFiles k) entries),
              ChangeSet.modified := ChangeSet.modified changes
                    + length (filter (\<lambda>(k, d). hasKey repoFiles k \<and> map_of repoFiles k \<noteq> Some d)
                                entries),
              toCopy := toCopy changes
                    @ map fst (filter (\<lambda>(k, d). map_of repoFiles k \<noteq> Some d) entries)\<rparr>"
  by (induction entries arbitrary: changes) (auto simp: hasKey_def)

lemma computeChanges_result:
  "computeChanges localFiles repoFiles =
     \<lparr>toCopy = map fst (filter (\<lambda>(k, d). map_of repoFiles k \<noteq> Some d) (ownEntries localFiles)),
      toDelete = filter (\<lambda>k. \<not> hasKey localFiles k) (map fst (ownEntries repoFiles)),
      ChangeSet.added = length (filter (\<lambda>(k, d). \<not> hasKey repoFiles k) (ownEntries localFiles)),
      ChangeSet.modified =
        length (filter (\<lambda>(k, d). hasKey repoFiles k \<and> map_of repoFiles k \<noteq> Some d)
                  (ownEntries localFiles)),
      ChangeSet.deleted =
        length (filter (\<lambda>k. \<not> hasKey localFiles k) (map fst (ownEntries repoFiles)))\<rparr>"
  by (simp add: computeChanges_def compareRepo_result compareLocal_result)

lemma ownEntries_Nil [simp]: "ownEntries [] = []"
  by (simp add: ownEntries_def)

lemma set_insertIndex [simp]: "set (insertIndex entry entries) = insert entry (set entries)"
  by (induction entries) auto

lemma set_sorted_indices [simp]: "set (foldr insertIndex entries []) = set entries"
  by (induction entries) auto

lemma distinct_insertIndex:
  "distinct (map fst entries) \<Longrightarrow> fst entry \<notin> fst ` set entries \<Longrightarrow>
     distinct (map fst (insertIndex entry entries))"
  by (induction entries) (auto simp: image_iff)

lemma distinct_sorted_indices:
  "distinct (map fst entries) \<Longrightarrow> distinct (map fst (foldr insertIndex entries []))"
  by (induction entries) (auto simp: distinct_insertIndex)

lemma set_ownEntries [simp]: "set (ownEntries record) = set record"
  by (auto simp: ownEntries_def)

lemma distinct_ownEntries:
  assumes "distinct (map fst record)"
  shows "distinct (map fst (ownEntries record))"
proof -
  have "distinct (map fst (filter (\<lambda>(file, digest). arrayIndex file \<noteq> None) record))"
    using assms by (rule distinct_map_filter)
  then have a: "distinct (map fst (foldr insertIndex
      (filter (\<lambda>(file, digest). arrayIndex file \<noteq> None) record) []))"
    by (rule distinct_sorted_indices)
  have b: "distinct (map fst (filter (\<lambda>(file, digest). arrayIndex file = None) record))"
    using assms by (rule distinct_map_filter)
  show ?thesis
    unfolding ownEntries_def using a b by (auto simp: image_iff)
qed

lemma storeKey_distinct:
  "distinct (map fst record) \<Longrightarrow> distinct (map fst (storeKey file digest record))"
  by (simp add: storeKey_def distinct_update)

lemma walk_distinct:
  "distinct (map fst result) \<Longrightarrow>
     distinct (map fst (walk cfg h workspaceRoot basePath rel items result))"
  by (induction cfg h workspaceRoot basePath rel items result rule: walk.induct)
     (auto simp: Let_def storeKey_distinct)

lemma getAllFilesWithHash_distinct:
  "getAllFilesWithHash cfg h workspaceRoot basePath tree = Inr found \<Longrightarrow> distinct (map fst found)"
  by (auto simp: getAllFilesWithHash_def walk_distinct split: if_splits sum.splits)

lemma compareAndCopy_unfold:
  assumes "getAllFilesWithHash (config m) h workspaceRoot (localRulesPath m workspaceRoot) (disk w)
             = Inr localFiles"
    and "getAllFilesWithHash (config m) h workspaceRoot (repoRulesPath m h) (disk w) = Inr repoFiles"
  shows "compareAndCopy m h workspaceRoot w =
     (case copyChanged (config m) (localRulesPath m workspaceRoot) (repoRulesPath m h)
             (toCopy (computeChanges localFiles repoFiles)) (disk w) of
        (Inl e, tree) \<Rightarrow> (Inl e, w\<lparr>disk := tree\<rparr>)
      | (Inr u, tree) \<Rightarrow> (Inr (computeChanges localFiles repoFiles), w\<lparr>disk := tree\<rparr>))"
  using assms
  by (simp add: compareAndCopy_def andThen_def succeed_def onDisk_def reading_def Let_def
        split: prod.splits sum.splits)

lemma syncRules_unfold:
  assumes "openClone m h workspaceRoot w = (Inr u, w1)"
    and "compareAndCopy m h workspaceRoot w1 = (r2, w2)"
  shows "syncRules m h workspaceRoot w =
     (case r2 of
        Inl e \<Rightarrow> (Inl (SyncFailed e), w2)
      | Inr changes \<Rightarrow>
          (case fst (publishSync h w2) of
             Inl e \<Rightarrow> Inl (SyncFailed e)
           | Inr v \<Rightarrow> Inr (statsOf changes),
           snd (publishSync h w2)))"
  using assms
  by (auto simp: syncRules_def andThen_def succeed_def split: prod.splits sum.splits)

lemma pushRules_unfold:
  assumes "openClone m h workspaceRoot w = (Inr u, w1)"
    and "compareAndCopy m h workspaceRoot w1 = (r2, w2)"
  shows "pushRules m h workspaceRoot w =
     (case r2 of
        Inl e \<Rightarrow> (Inl (PushFailed e), w2)
      | Inr changes \<Rightarrow>
          (case fst (publishPush m h w2) of
             Inl e \<Rightarrow> Inl (PushFailed e)
           | Inr v \<Rightarrow> Inr (statsOf changes),
           snd (publishPush m h w2)))"
  using assms
  by (auto simp: pushRules_def andThen_def succeed_def split: prod.splits sum.splits)

lemma syncRules_disk:
  assumes "openClone m h workspaceRoot w = (Inr u, w1)"
    and "compareAndCopy m h workspaceRoot w1 = (r2, w2)"
  shows "disk (snd (syncRules m h workspaceRoot w)) = disk w2"
  by (simp add: syncRules_unfold[OF assms] publishSync_disk split: sum.splits)

lemma pushRules_disk:
  assumes "openClone m h workspaceRoot w = (Inr u, w1)"
    and "compareAndCopy m h workspaceRoot w1 = (r2, w2)"
  shows "disk (snd (pushRules m h workspaceRoot w)) = disk w2"
  by (simp add: pushRules_unfold[OF assms] publishPush_disk split: sum.splits)



text \<open>
  Whatever the two fingerprint maps are, \<open>syncRules\<close> and \<open>pushRules\<close> remove no file:
  every file there when the clone was opened, in the clone's rule tree as anywhere
  else, is still a file after the copy phase and after the whole call (its content may
  have been replaced). \<open>toDelete\<close> is computed all the same, and when the call returns
  its statistics, \<open>deleted\<close> is the length of \<open>toDelete\<close>.
\<close>

lemma sync_and_push_keep_files:
  assumes "openClone m h workspaceRoot w = (Inr (), w1)"
  shows "(\<forall>r w2. compareAndCopy m h workspaceRoot w1 = (r, w2)
            \<longrightarrow> dom (fileAt (disk w1)) \<subseteq> dom (fileAt (disk w2)))
     \<and> dom (fileAt (disk w1)) \<subseteq> dom (fileAt (disk (snd (syncRules m h workspaceRoot w))))
     \<and> dom (fileAt (disk w1)) \<subseteq> dom (fileAt (disk (snd (pushRules m h workspaceRoot w))))
     \<and> (\<forall>localFiles repoFiles stats.
           getAllFilesWithHash (config m) h workspaceRoot (localRulesPath m workspaceRoot) (disk w1)
             = Inr localFiles
           \<and> getAllFilesWithHash (config m) h workspaceRoot (repoRulesPath m h) (disk w1)
               = Inr repoFiles
           \<and> (fst (syncRules m h workspaceRoot w) = Inr stats
                \<or> fst (pushRules m h workspaceRoot w) = Inr stats)
           \<longrightarrow> toDelete (computeChanges localFiles repoFiles)
                 = filter (\<lambda>k. \<not> hasKey localFiles k) (map fst (ownEntries repoFiles))
               \<and> deleted stats = length (toDelete (computeChanges localFiles repoFiles)))"
proof -
  obtain r2 w2 where cc: "compareAndCopy m h workspaceRoot w1 = (r2, w2)"
    by (cases "compareAndCopy m h workspaceRoot w1")
  have keep: "dom (fileAt (disk w1)) \<subseteq> dom (fileAt (disk w2))"
    using cc by (rule compareAndCopy_keeps)
  have a: "\<forall>r w2. compareAndCopy m h workspaceRoot w1 = (r, w2)
            \<longrightarrow> dom (fileAt (disk w1)) \<subseteq> dom (fileAt (disk w2))"
    using cc keep by simp
  have s: "dom (fileAt (disk w1)) \<subseteq> dom (fileAt (disk (snd (syncRules m h workspaceRoot w))))"
    using keep syncRules_disk[OF assms cc] by simp
  have p: "dom (fileAt (disk w1)) \<subseteq> dom (fileAt (disk (snd (pushRules m h workspaceRoot w))))"
    using keep pushRules_disk[OF assms cc] by simp
  have d: "\<forall>localFiles repoFiles stats.
           getAllFilesWithHash (config m) h workspaceRoot (localRulesPath m workspaceRoot) (disk w1)
             = Inr localFiles
           \<and> getAllFilesWithHash (config m) h workspaceRoot (repoRulesPath m h) (disk w1)
               = Inr repoFiles
           \<and> (fst (syncRules m h workspaceRoot w) = Inr stats
                \<or> fst (pushRules m h workspaceRoot w) = Inr stats)
           \<longrightarrow> toDelete (computeChanges localFiles repoFiles)
                 = filter (\<lambda>k. \<not> hasKey localFiles k) (map fst (ownEntries repoFiles))
               \<and> deleted stats = length (toDelete (computeChanges localFiles repoFiles))"
  proof (intro allI impI)
    fix localFiles repoFiles stats
    assume h: "getAllFilesWithHash (config m) h workspaceRoot (localRulesPath m workspaceRoot) (disk w1)
             = Inr localFiles
           \<and> getAllFilesWithHash (config m) h workspaceRoot (repoRulesPath m h) (disk w1)
               = Inr repoFiles
           \<and> (fst (syncRules m h workspaceRoot w) = Inr stats
                \<or> fst (pushRules m h workspaceRoot w) = Inr stats)"
    let ?changes = "computeChanges localFiles repoFiles"
    from h have maps:
      "getAllFilesWithHash (config m) h workspaceRoot (localRulesPath m workspaceRoot) (disk w1)
         = Inr localFiles"
      "getAllFilesWithHash (config m) h workspaceRoot (repoRulesPath m h) (disk w1) = Inr repoFiles"
      by simp_all
    have r2: "r2 = Inr ?changes \<or> (\<exists>e. r2 = Inl e)"
      using cc compareAndCopy_unfold[OF maps] by (auto split: prod.splits sum.splits)
    have st: "stats = statsOf ?changes"
      using h r2 syncRules_unfold[OF assms cc] pushRules_unfold[OF assms cc]
      by (auto split: sum.splits)
    have td: "toDelete ?changes = filter (\<lambda>k. \<not> hasKey localFiles k) (map fst (ownEntries repoFiles))"
      by (simp add: computeChanges_result)
    have dl: "deleted stats = length (toDelete ?changes)"
      by (simp add: st statsOf_def computeChanges_result)
    with td show "toDelete ?changes
                 = filter (\<lambda>k. \<not> hasKey localFiles k) (map fst (ownEntries repoFiles))
               \<and> deleted stats = length (toDelete ?changes)"
      by simp
  qed
  from a s p d show ?thesis by (intro conjI)
qed

text \<open>
  Claim C2, on a repository whose rule directory holds the files \<open>constructor\<close>,
  \<open>toString\<close> and \<open>legacy.md\<close>, none of which the workspace has; the workspace holds
  \<open>a.md\<close>. Neither \<open>syncRules\<close> nor \<open>pushRules\<close> removes a file: the three are in the
  clone after the call as before it, next to the copy of \<open>a.md\<close>. The remote map has
  three paths that the local map has not, but the statistics return \<open>deleted = 1\<close>:
  the operator \<open>in\<close> finds \<open>constructor\<close> and \<open>toString\<close> in the local map, which
  inherits members of these names, and \<open>toDelete\<close> holds \<open>legacy.md\<close> alone.
\<close>

theorem deleted_misses_inherited_names:
  "getAllFilesWithHash (config projectManager) inheritingHost projectRoot
       (localRulesPath projectManager projectRoot)
       (disk (snd (openClone projectManager inheritingHost projectRoot projectWorld)))
     = Inr [([''a.md''], ''aaa'')]
   \<and> getAllFilesWithHash (config projectManager) inheritingHost projectRoot
       (repoRulesPath projectManager inheritingHost)
       (disk (snd (openClone projectManager inheritingHost projectRoot projectWorld)))
     = Inr [([''constructor''], ''built''), ([''toString''], ''shown''),
            ([''legacy.md''], ''old rule'')]
   \<and> filter (\<lambda>file. file \<notin> set (map fst [([''a.md''], ''aaa'')]))
         (map fst [([''constructor''], ''built''), ([''toString''], ''shown''),
                   ([''legacy.md''], ''old rule'')])
     = [[''constructor''], [''toString''], [''legacy.md'']]
   \<and> toDelete (computeChanges [([''a.md''], ''aaa'')]
         [([''constructor''], ''built''), ([''toString''], ''shown''),
          ([''legacy.md''], ''old rule'')])
     = [[''legacy.md'']]
   \<and> fst (syncRules projectManager inheritingHost projectRoot projectWorld)
     = Inr \<lparr>added = 1, modified = 0, deleted = 1, total = 2\<rparr>
   \<and> fst (pushRules projectManager inheritingHost projectRoot projectWorld)
     = Inr \<lparr>added = 1, modified = 0, deleted = 1, total = 2\<rparr>
   \<and> getFilesInDirectory
         (disk (snd (syncRules projectManager inheritingHost projectRoot projectWorld)))
         (repoRulesPath projectManager inheritingHost)
     = Inr [[''tmp'', ''clone'', ''.cursor'', ''rules'', ''constructor''],
            [''tmp'', ''clone'', ''.cursor'', ''rules'', ''toString''],
            [''tmp'', ''clone'', ''.cursor'', ''rules'', ''legacy.md''],
            [''tmp'', ''clone'', ''.cursor'', ''rules'', ''a.md'']]"
  by code_simp

end
